theory Spec2Isabelle
  imports Complex_Main
begin

section \<open>Python results and the expression trees of the modelling framework\<close>

text \<open>
  The two blocks of the repository do not compute numbers when they are built: every rule
  returns an expression tree over variables and parameters, and the tree is evaluated later
  under an assignment of the variables. The model keeps the two stages apart. A rule is a
  function that returns a tree or raises (an index that a component does not have is a
  \<open>KeyError\<close> raised while the block is built); \<open>eval_expr\<close> gives the value of a tree
  under an assignment, over the real numbers, and is undefined where Python raises on
  evaluation (a variable without a value, a division by zero).
\<close>

datatype error =
  ConfigurationError | KeyError | IndexError | AttributeError | ZeroDivisionError
  | NameError | Exception

definition bind_e :: "error + 'a \<Rightarrow> ('a \<Rightarrow> error + 'b) \<Rightarrow> error + 'b" where
  "bind_e m f = (case m of Inl e \<Rightarrow> Inl e | Inr x \<Rightarrow> f x)"

text \<open>
  \<open>Smooth_max a b eps\<close> and \<open>Smooth_min a b eps\<close> are the calls of the helpers
  \<open>smooth_max\<close> and \<open>smooth_min\<close> of \<open>idaes.core.util.math\<close>; the helpers are not part of
  the sources at hand, so a call is kept as a node and its meaning is a parameter of the
  evaluation.
\<close>

datatype 'v expr =
  Num real
  | V 'v
  | Neg "'v expr"
  | Add "'v expr" "'v expr"
  | Sub "'v expr" "'v expr"
  | Mul "'v expr" "'v expr"
  | Divide "'v expr" "'v expr"
  | Exp "'v expr"
  | Smooth_max "'v expr" "'v expr" "'v expr"
  | Smooth_min "'v expr" "'v expr" "'v expr"

datatype 'v constraint = Skip | Equality "'v expr" "'v expr"

record intrinsics =
  smooth_max_fn :: "real \<Rightarrow> real \<Rightarrow> real \<Rightarrow> real"
  smooth_min_fn :: "real \<Rightarrow> real \<Rightarrow> real \<Rightarrow> real"

definition lift2 :: "(real \<Rightarrow> real \<Rightarrow> real) \<Rightarrow> real option \<Rightarrow> real option \<Rightarrow> real option" where
  "lift2 f a b = (case a of None \<Rightarrow> None | Some x \<Rightarrow> (case b of None \<Rightarrow> None | Some y \<Rightarrow> Some (f x y)))"

definition lift3 ::
  "(real \<Rightarrow> real \<Rightarrow> real \<Rightarrow> real) \<Rightarrow> real option \<Rightarrow> real option \<Rightarrow> real option \<Rightarrow> real option" where
  "lift3 f a b c =
     (case a of None \<Rightarrow> None
      | Some x \<Rightarrow> (case b of None \<Rightarrow> None
          | Some y \<Rightarrow> (case c of None \<Rightarrow> None | Some z \<Rightarrow> Some (f x y z))))"

definition divide_val :: "real option \<Rightarrow> real option \<Rightarrow> real option" where
  "divide_val a b =
     (case a of None \<Rightarrow> None
      | Some x \<Rightarrow> (case b of None \<Rightarrow> None
          | Some y \<Rightarrow> if y = 0 then None else Some (x / y)))"

fun eval_expr :: "intrinsics \<Rightarrow> ('v \<Rightarrow> real option) \<Rightarrow> 'v expr \<Rightarrow> real option" where
  "eval_expr I env (Num c) = Some c"
| "eval_expr I env (V x) = env x"
| "eval_expr I env (Neg a) = map_option uminus (eval_expr I env a)"
| "eval_expr I env (Add a b) = lift2 (+) (eval_expr I env a) (eval_expr I env b)"
| "eval_expr I env (Sub a b) = lift2 (-) (eval_expr I env a) (eval_expr I env b)"
| "eval_expr I env (Mul a b) = lift2 (*) (eval_expr I env a) (eval_expr I env b)"
| "eval_expr I env (Divide a b) = divide_val (eval_expr I env a) (eval_expr I env b)"
| "eval_expr I env (Exp a) = map_option exp (eval_expr I env a)"
| "eval_expr I env (Smooth_max a b c) =
     lift3 (smooth_max_fn I) (eval_expr I env a) (eval_expr I env b) (eval_expr I env c)"
| "eval_expr I env (Smooth_min a b c) =
     lift3 (smooth_min_fn I) (eval_expr I env a) (eval_expr I env b) (eval_expr I env c)"

subsection \<open>Indexed components\<close>

text \<open>
  An indexed component is a table from the points of its index set to its entries, in the
  order of the index set. Reading an index the component does not have raises \<open>KeyError\<close>.
\<close>

definition getitem :: "(real \<times> 'a) list \<Rightarrow> real \<Rightarrow> error + 'a" where
  "getitem tbl k = (case map_of tbl k of None \<Rightarrow> Inl KeyError | Some x \<Rightarrow> Inr x)"

text \<open>An indexed variable: \<open>idx\<close> is its index set, \<open>mk t\<close> names its member at \<open>t\<close>.\<close>

definition getvar :: "real list \<Rightarrow> (real \<Rightarrow> 'v) \<Rightarrow> real \<Rightarrow> error + 'v expr" where
  "getvar idx mk t = (if t \<in> set idx then Inr (V (mk t)) else Inl KeyError)"

fun traverse :: "('a \<Rightarrow> error + 'b) \<Rightarrow> 'a list \<Rightarrow> error + 'b list" where
  "traverse f [] = Inr []"
| "traverse f (x # xs) =
     bind_e (f x) (\<lambda>y. bind_e (traverse f xs) (\<lambda>ys. Inr (y # ys)))"

text \<open>
  \<open>Expression idx rule\<close> and \<open>Constraint idx rule\<close> construct a component: the rule is
  called at every index in turn, and an exception of the rule ends the construction. A
  constraint rule that returns \<open>Skip\<close> leaves the index without an entry.
\<close>

definition Expression :: "real list \<Rightarrow> (real \<Rightarrow> error + 'a) \<Rightarrow> error + (real \<times> 'a) list" where
  "Expression idx rule = traverse (\<lambda>t. bind_e (rule t) (\<lambda>e. Inr (t, e))) idx"

definition Constraint ::
  "real list \<Rightarrow> (real \<Rightarrow> error + 'v constraint) \<Rightarrow> error + (real \<times> 'v constraint) list" where
  "Constraint idx rule =
     bind_e (Expression idx rule) (\<lambda>tbl. Inr (filter (\<lambda>(t, c). c \<noteq> Skip) tbl))"

subsection \<open>The time set\<close>

text \<open>
  The time set of the flowsheet is an ordered set: a list of its points, in order.
  \<open>first\<close> raises on the empty set; \<open>prev ts t\<close> is the point before \<open>t\<close>, and raises at
  the first point and at a point that is not in the set.
\<close>

definition first :: "real list \<Rightarrow> error + real" where
  "first ts = (case ts of [] \<Rightarrow> Inl IndexError | t # _ \<Rightarrow> Inr t)"

fun prev_from :: "real \<Rightarrow> real list \<Rightarrow> real \<Rightarrow> error + real" where
  "prev_from p [] t = Inl KeyError"
| "prev_from p (x # xs) t = (if t = x then Inr p else prev_from x xs t)"

definition prev :: "real list \<Rightarrow> real \<Rightarrow> error + real" where
  "prev ts t =
     (case ts of [] \<Rightarrow> Inl KeyError
      | x # xs \<Rightarrow> if t = x then Inl IndexError else prev_from x xs t)"

section \<open>The PID controller block (\<open>idaes/dynamic/pid_controller.py\<close>)\<close>

datatype pid_var =
  Setpoint real | Gain real | Time_i real | Time_d real
  | Err_d0 | Err_i0
  | Pv real | Output real
  | Limits string | Smooth_eps

text \<open>
  The configuration. \<open>config_pv\<close> and \<open>config_output\<close> are the components the block
  refers to, given by their index sets; \<open>None\<close> is the default, no component.
\<close>

record pid_config =
  config_pv :: "real list option"
  config_output :: "real list option"
  upper :: real
  lower :: real
  calculate_initial_integral :: bool

definition CONFIG :: pid_config where
  "CONFIG = \<lparr>config_pv = None, config_output = None, upper = 1, lower = 0,
     calculate_initial_integral = True\<rparr>"

text \<open>
  The block. The variables \<open>setpoint\<close>, \<open>gain\<close>, \<open>time_i\<close>, \<open>time_d\<close> and the references
  \<open>pv\<close>, \<open>output\<close> (the field \<open>output'\<close>) are kept by their index sets; \<open>var_value\<close>
  and \<open>var_fixed\<close> hold what \<open>build\<close> initialises and fixes; \<open>limits\<close> and \<open>smooth_eps\<close> are the values of the
  mutable parameters; the remaining fields are the expression and constraint components.
  \<open>err_i0\<close> is \<open>None\<close> as long as the block has no attribute of that name.
\<close>

record PIDBlock =
  time_set :: "real list"
  t0 :: real
  setpoint :: "real list"
  gain :: "real list"
  time_i :: "real list"
  time_d :: "real list"
  var_value :: "(pid_var \<times> real) list"
  var_fixed :: "pid_var list"
  pv :: "real list"
  output' :: "real list"
  err :: "(real \<times> pid_var expr) list"
  pterm :: "(real \<times> pid_var expr) list"
  dterm :: "(real \<times> pid_var expr) list"
  iterm :: "(real \<times> pid_var expr) list"
  limits :: "(string \<times> real) list"
  smooth_eps :: real
  err_d :: "(real \<times> pid_var expr) list"
  err_i0 :: "pid_var expr option"
  err_i :: "(real \<times> pid_var expr) list"
  unconstrained_output :: "(real \<times> pid_var expr) list"
  output_constraint :: "(real \<times> pid_var constraint) list"

subsection \<open>The rules of \<open>build\<close>\<close>

definition err_rule :: "PIDBlock \<Rightarrow> real \<Rightarrow> error + pid_var expr" where
  "err_rule b = (\<lambda>t.
     bind_e (getvar (setpoint b) Setpoint t) (\<lambda>s.
     bind_e (getvar (pv b) Pv t) (\<lambda>p.
     Inr (Sub s p))))"

definition pterm_rule :: "PIDBlock \<Rightarrow> real \<Rightarrow> error + pid_var expr" where
  "pterm_rule b = (\<lambda>t. bind_e (getvar (pv b) Pv t) (\<lambda>p. Inr (Neg p)))"

definition dterm_rule :: "PIDBlock \<Rightarrow> real \<Rightarrow> error + pid_var expr" where
  "dterm_rule b = (\<lambda>t. bind_e (getvar (pv b) Pv t) (\<lambda>p. Inr (Neg p)))"

definition iterm_rule :: "PIDBlock \<Rightarrow> real \<Rightarrow> error + pid_var expr" where
  "iterm_rule b = (\<lambda>t. getitem (err b) t)"

text \<open>Dividing a tree by a Python number: a zero divisor raises at once.\<close>

definition divide_num :: "'v expr \<Rightarrow> real \<Rightarrow> error + 'v expr" where
  "divide_num a c = (if c = 0 then Inl ZeroDivisionError else Inr (Divide a (Num c)))"

definition err_d_rule :: "PIDBlock \<Rightarrow> real \<Rightarrow> error + pid_var expr" where
  "err_d_rule b = (\<lambda>t.
     (if t = t0 b then Inr (V Err_d0)
      else
        bind_e (getitem (dterm b) t) (\<lambda>d.
        bind_e (prev (time_set b) t) (\<lambda>tp.
        bind_e (getitem (dterm b) tp) (\<lambda>dp.
        divide_num (Sub d dp) (t - tp))))))"

text \<open>The initial integral error reads the output at the index \<open>0\<close>, as the source does.\<close>

definition err_i0_rule :: "PIDBlock \<Rightarrow> error + pid_var expr" where
  "err_i0_rule b =
     bind_e (getvar (time_i b) Time_i (t0 b)) (\<lambda>ti.
     bind_e (getvar (output' b) Output 0) (\<lambda>out0.
     bind_e (getvar (gain b) Gain (t0 b)) (\<lambda>g.
     bind_e (getitem (pterm b) (t0 b)) (\<lambda>p.
     bind_e (getvar (time_d b) Time_d (t0 b)) (\<lambda>td.
     bind_e (getitem (err_d b) (t0 b)) (\<lambda>ed.
     Inr (Divide (Mul ti (Sub (Sub out0 (Mul g p)) (Mul (Mul g td) ed))) g)))))))"

text \<open>One term of the trapezoidal sum, and Python's \<open>sum\<close>, which adds from \<open>0\<close>.\<close>

definition trapezoid_rule :: "PIDBlock \<Rightarrow> real \<Rightarrow> error + pid_var expr" where
  "trapezoid_rule b = (\<lambda>t.
     bind_e (getitem (iterm b) t) (\<lambda>i.
     bind_e (prev (time_set b) t) (\<lambda>tp.
     bind_e (getitem (iterm b) tp) (\<lambda>ip.
     Inr (Divide (Mul (Add i ip) (Num (t - tp))) (Num 2))))))"

definition sum_py :: "'v expr list \<Rightarrow> 'v expr" where
  "sum_py es = foldl Add (Num 0) es"

definition getattr_err_i0 :: "PIDBlock \<Rightarrow> error + pid_var expr" where
  "getattr_err_i0 b = (case err_i0 b of None \<Rightarrow> Inl AttributeError | Some e \<Rightarrow> Inr e)"

definition err_i_rule :: "PIDBlock \<Rightarrow> real \<Rightarrow> error + pid_var expr" where
  "err_i_rule b = (\<lambda>t_end.
     bind_e (getattr_err_i0 b) (\<lambda>e0.
     bind_e (traverse (trapezoid_rule b)
               (filter (\<lambda>t. t \<le> t_end \<and> t > t0 b) (time_set b))) (\<lambda>terms.
     Inr (Add e0 (sum_py terms)))))"

definition unconstrained_output_rule :: "PIDBlock \<Rightarrow> real \<Rightarrow> error + pid_var expr" where
  "unconstrained_output_rule b = (\<lambda>t.
     bind_e (getvar (gain b) Gain t) (\<lambda>g.
     bind_e (getitem (pterm b) t) (\<lambda>p.
     bind_e (getvar (time_i b) Time_i t) (\<lambda>ti.
     bind_e (getitem (err_i b) t) (\<lambda>ei.
     bind_e (getvar (time_d b) Time_d t) (\<lambda>td.
     bind_e (getitem (err_d b) t) (\<lambda>ed.
     Inr (Mul g (Add (Add p (Mul (Divide (Num 1) ti) ei)) (Mul td ed))))))))))"

definition output_constraint_rule :: "PIDBlock \<Rightarrow> real \<Rightarrow> error + pid_var constraint" where
  "output_constraint_rule b = (\<lambda>t.
     (if t = t0 b then Inr Skip
      else
        bind_e (getvar (output' b) Output t) (\<lambda>out.
        bind_e (getitem (unconstrained_output b) t) (\<lambda>u.
        Inr (Equality out
               (Smooth_min (Smooth_max u (V (Limits ''l'')) (V Smooth_eps))
                  (V (Limits ''h'')) (V Smooth_eps)))))))"

subsection \<open>\<open>build\<close>\<close>

text \<open>The block before \<open>build\<close> has added anything to it.\<close>

definition new_block :: "real list \<Rightarrow> real \<Rightarrow> PIDBlock" where
  "new_block ts t =
     \<lparr>time_set = ts, t0 = t, setpoint = [], gain = [], time_i = [], time_d = [],
      var_value = [], var_fixed = [], pv = [], output' = [],
      err = [], pterm = [], dterm = [], iterm = [], limits = [], smooth_eps = 0,
      err_d = [], err_i0 = None, err_i = [], unconstrained_output = [],
      output_constraint = []\<rparr>"

definition pid_build :: "pid_config \<Rightarrow> real list \<Rightarrow> error + PIDBlock" where
  "pid_build config ts =
     (case config_pv config of None \<Rightarrow> Inl ConfigurationError
      | Some pv_ref \<Rightarrow>
     (case config_output config of None \<Rightarrow> Inl ConfigurationError
      | Some output_ref \<Rightarrow>
     bind_e (first ts) (\<lambda>t.
     let b = new_block ts t;
         b = b\<lparr>setpoint := ts, gain := ts, time_i := ts, time_d := ts\<rparr>;
         b = b\<lparr>var_value := [(Err_d0, 0)], var_fixed := [Err_d0]\<rparr>;
         b = (if \<not> calculate_initial_integral config
              then b\<lparr>err_i0 := Some (V Err_i0),
                     var_value := var_value b @ [(Err_i0, 0)],
                     var_fixed := var_fixed b @ [Err_i0]\<rparr>
              else b);
         b = b\<lparr>pv := pv_ref, output' := output_ref\<rparr>
     in
     bind_e (Expression ts (err_rule b)) (\<lambda>c. let b = b\<lparr>err := c\<rparr> in
     bind_e (Expression ts (pterm_rule b)) (\<lambda>c. let b = b\<lparr>pterm := c\<rparr> in
     bind_e (Expression ts (dterm_rule b)) (\<lambda>c. let b = b\<lparr>dterm := c\<rparr> in
     bind_e (Expression ts (iterm_rule b)) (\<lambda>c. let b = b\<lparr>iterm := c\<rparr> in
     let b = b\<lparr>limits := [(''l'', lower config), (''h'', upper config)]\<rparr>;
         b = b\<lparr>smooth_eps := 1 / 10000\<rparr>
     in
     bind_e (Expression ts (err_d_rule b)) (\<lambda>c. let b = b\<lparr>err_d := c\<rparr> in
     bind_e (if calculate_initial_integral config
             then bind_e (err_i0_rule b) (\<lambda>e. Inr (b\<lparr>err_i0 := Some e\<rparr>))
             else Inr b) (\<lambda>b.
     bind_e (Expression ts (err_i_rule b)) (\<lambda>c. let b = b\<lparr>err_i := c\<rparr> in
     bind_e (Expression ts (unconstrained_output_rule b)) (\<lambda>c.
       let b = b\<lparr>unconstrained_output := c\<rparr> in
     bind_e (Constraint ts (output_constraint_rule b)) (\<lambda>c.
     Inr (b\<lparr>output_constraint := c\<rparr>)))))))))))))"

text \<open>The value of an entry of a component under an assignment.\<close>

definition value_at ::
  "intrinsics \<Rightarrow> ('v \<Rightarrow> real option) \<Rightarrow> (real \<times> 'v expr) list \<Rightarrow> real \<Rightarrow> real option" where
  "value_at I env tbl t = (case map_of tbl t of None \<Rightarrow> None | Some e \<Rightarrow> eval_expr I env e)"

text \<open>
  The value of \<open>err_i0\<close>, which is a variable or an expression of the block.
\<close>

definition err_i0_value :: "intrinsics \<Rightarrow> (pid_var \<Rightarrow> real option) \<Rightarrow> PIDBlock \<Rightarrow> real option" where
  "err_i0_value I env b = (case err_i0 b of None \<Rightarrow> None | Some e \<Rightarrow> eval_expr I env e)"

text \<open>
  The integral error as the specification words it: \<open>err_i0\<close> plus the sum, over the
  consecutive pairs \<open>(t_prev, t_cur)\<close> of the time set with \<open>t0 < t_cur \<le> t\<close>, of
  \<open>(iterm[t_cur] + iterm[t_prev]) * (t_cur - t_prev) / 2\<close>. It is compared with the
  expression that \<open>build\<close> generates.
\<close>

definition consecutive_pairs :: "real list \<Rightarrow> (real \<times> real) list" where
  "consecutive_pairs ts = zip ts (tl ts)"

definition trapezoid_sum_spec :: "(real \<Rightarrow> real) \<Rightarrow> real list \<Rightarrow> real \<Rightarrow> real \<Rightarrow> real" where
  "trapezoid_sum_spec it ts t_first t =
     sum_list
       (map (\<lambda>(t_prev, t_cur). (it t_cur + it t_prev) * (t_cur - t_prev) / 2)
          (filter (\<lambda>(t_prev, t_cur). t_first < t_cur \<and> t_cur \<le> t) (consecutive_pairs ts)))"

section \<open>The NTU condenser (\<open>idaes/power_generation/unit_models/helm/condenser_ntu.py\<close>)\<close>

text \<open>
  The block has two control volumes. \<open>build\<close> creates them under the configured names and
  refers to them as \<open>side_1\<close> and \<open>hot_side\<close> (the hot side) and as \<open>side_2\<close> and
  \<open>cold_side\<close> (the cold side); the model names them \<open>Side_1\<close> and \<open>Side_2\<close>. The control
  volumes, their property blocks and their ports are made by code outside the sources at
  hand; the model keeps their time-indexed variables and property expressions as leaves.
\<close>

datatype side = Side_1 | Side_2

datatype hx_var =
  Overall_heat_transfer_coefficient real
  | Area
  | Heat side real
  | Temperature_in side real
  | Temperature_out side real
  | Temperature_sat_in side real
  | Flow_mol_in side real
  | Pressure_in side real
  | Cp_mol_phase_liq_in side real
  | Enth_mol_out side real
  | Enth_mol_sat_phase_liq_in side real
  | Other_var string real

record hx_config =
  hot_side_name :: string
  cold_side_name :: string
  implicit_options :: "string list"

text \<open>
  \<open>implicit_options\<close> are the options of the configuration that \<open>CONFIG\<close> does not
  declare; \<open>_process_config\<close> accepts one only under the name of a side.
\<close>

definition process_config :: "hx_config \<Rightarrow> error + unit" where
  "process_config config =
     (if hot_side_name config = cold_side_name config then Inl NameError
      else if \<exists>o' \<in> set (implicit_options config).
                \<not> (o' \<in> set [hot_side_name config, cold_side_name config])
      then Inl KeyError
      else Inr ())"

record HelmNtuCondenser =
  time :: "real list"
  overall_heat_transfer_coefficient :: "real list"
  unit_heat_balance :: "(real \<times> hx_var constraint) list"
  delta_temperature_in :: "(real \<times> hx_var expr) list"
  delta_temperature_out :: "(real \<times> hx_var expr) list"
  delta_temperature_ntu :: "(real \<times> hx_var expr) list"
  mcp_min :: "(real \<times> hx_var expr) list"
  ntu :: "(real \<times> hx_var expr) list"
  effectiveness :: "(real \<times> hx_var expr) list"
  heat_transfer :: "(real \<times> hx_var expr) list"
  heat_transfer_equation :: "(real \<times> hx_var constraint) list"
  saturation_eqn :: "(real \<times> hx_var constraint) list"

definition unit_heat_balance_rule :: "HelmNtuCondenser \<Rightarrow> real \<Rightarrow> error + hx_var constraint" where
  "unit_heat_balance_rule b = (\<lambda>t.
     bind_e (getvar (time b) (Heat Side_1) t) (\<lambda>h1.
     bind_e (getvar (time b) (Heat Side_2) t) (\<lambda>h2.
     Inr (Equality (Num 0) (Add h1 h2)))))"

definition delta_temperature_in_rule :: "HelmNtuCondenser \<Rightarrow> real \<Rightarrow> error + hx_var expr" where
  "delta_temperature_in_rule b = (\<lambda>t.
     bind_e (getvar (time b) (Temperature_in Side_1) t) (\<lambda>t1.
     bind_e (getvar (time b) (Temperature_in Side_2) t) (\<lambda>t2.
     Inr (Sub t1 t2))))"

definition delta_temperature_out_rule :: "HelmNtuCondenser \<Rightarrow> real \<Rightarrow> error + hx_var expr" where
  "delta_temperature_out_rule b = (\<lambda>t.
     bind_e (getvar (time b) (Temperature_out Side_1) t) (\<lambda>t1.
     bind_e (getvar (time b) (Temperature_out Side_2) t) (\<lambda>t2.
     Inr (Sub t1 t2))))"

definition delta_temperature_ntu_rule :: "HelmNtuCondenser \<Rightarrow> real \<Rightarrow> error + hx_var expr" where
  "delta_temperature_ntu_rule b = (\<lambda>t.
     bind_e (getvar (time b) (Temperature_sat_in Side_1) t) (\<lambda>t1.
     bind_e (getvar (time b) (Temperature_in Side_2) t) (\<lambda>t2.
     Inr (Sub t1 t2))))"

definition mcp_min_rule :: "HelmNtuCondenser \<Rightarrow> real \<Rightarrow> error + hx_var expr" where
  "mcp_min_rule b = (\<lambda>t.
     bind_e (getvar (time b) (Flow_mol_in Side_2) t) (\<lambda>f.
     bind_e (getvar (time b) (Cp_mol_phase_liq_in Side_2) t) (\<lambda>cp.
     Inr (Mul f cp))))"

definition ntu_rule :: "HelmNtuCondenser \<Rightarrow> real \<Rightarrow> error + hx_var expr" where
  "ntu_rule b = (\<lambda>t.
     bind_e (getvar (overall_heat_transfer_coefficient b)
               Overall_heat_transfer_coefficient t) (\<lambda>u.
     bind_e (getitem (mcp_min b) t) (\<lambda>m.
     Inr (Divide (Mul u (V Area)) m))))"

definition effectiveness_rule :: "HelmNtuCondenser \<Rightarrow> real \<Rightarrow> error + hx_var expr" where
  "effectiveness_rule b = (\<lambda>t.
     bind_e (getitem (ntu b) t) (\<lambda>n.
     Inr (Sub (Num 1) (Exp (Neg n)))))"

definition heat_transfer_rule :: "HelmNtuCondenser \<Rightarrow> real \<Rightarrow> error + hx_var expr" where
  "heat_transfer_rule b = (\<lambda>t.
     bind_e (getitem (effectiveness b) t) (\<lambda>eff.
     bind_e (getitem (mcp_min b) t) (\<lambda>m.
     bind_e (getvar (time b) (Temperature_sat_in Side_1) t) (\<lambda>t1.
     bind_e (getvar (time b) (Temperature_in Side_2) t) (\<lambda>t2.
     Inr (Mul (Mul eff m) (Sub t1 t2)))))))"

definition heat_transfer_equation_rule ::
  "HelmNtuCondenser \<Rightarrow> real \<Rightarrow> error + hx_var constraint" where
  "heat_transfer_equation_rule b = (\<lambda>t.
     bind_e (getvar (time b) (Heat Side_2) t) (\<lambda>h2.
     bind_e (getitem (heat_transfer b) t) (\<lambda>q.
     Inr (Equality h2 q))))"

definition saturation_eqn_rule :: "HelmNtuCondenser \<Rightarrow> real \<Rightarrow> error + hx_var constraint" where
  "saturation_eqn_rule b = (\<lambda>t.
     bind_e (getvar (time b) (Enth_mol_out Side_1) t) (\<lambda>h.
     bind_e (getvar (time b) (Enth_mol_sat_phase_liq_in Side_1) t) (\<lambda>hs.
     Inr (Equality h hs))))"

definition new_condenser :: "real list \<Rightarrow> HelmNtuCondenser" where
  "new_condenser ts =
     \<lparr>time = ts, overall_heat_transfer_coefficient = [], unit_heat_balance = [],
      delta_temperature_in = [], delta_temperature_out = [], delta_temperature_ntu = [],
      mcp_min = [], ntu = [], effectiveness = [], heat_transfer = [],
      heat_transfer_equation = [], saturation_eqn = []\<rparr>"

definition condenser_build :: "hx_config \<Rightarrow> real list \<Rightarrow> error + HelmNtuCondenser" where
  "condenser_build config ts =
     bind_e (process_config config) (\<lambda>_.
     let b = new_condenser ts;
         b = b\<lparr>overall_heat_transfer_coefficient := ts\<rparr>
     in
     bind_e (Constraint ts (unit_heat_balance_rule b)) (\<lambda>c.
       let b = b\<lparr>unit_heat_balance := c\<rparr> in
     bind_e (Expression ts (delta_temperature_in_rule b)) (\<lambda>c.
       let b = b\<lparr>delta_temperature_in := c\<rparr> in
     bind_e (Expression ts (delta_temperature_out_rule b)) (\<lambda>c.
       let b = b\<lparr>delta_temperature_out := c\<rparr> in
     bind_e (Expression ts (delta_temperature_ntu_rule b)) (\<lambda>c.
       let b = b\<lparr>delta_temperature_ntu := c\<rparr> in
     bind_e (Expression ts (mcp_min_rule b)) (\<lambda>c. let b = b\<lparr>mcp_min := c\<rparr> in
     bind_e (Expression ts (ntu_rule b)) (\<lambda>c. let b = b\<lparr>ntu := c\<rparr> in
     bind_e (Expression ts (effectiveness_rule b)) (\<lambda>c. let b = b\<lparr>effectiveness := c\<rparr> in
     bind_e (Expression ts (heat_transfer_rule b)) (\<lambda>c. let b = b\<lparr>heat_transfer := c\<rparr> in
     bind_e (Constraint ts (heat_transfer_equation_rule b)) (\<lambda>c.
       let b = b\<lparr>heat_transfer_equation := c\<rparr> in
     bind_e (Constraint ts (saturation_eqn_rule b)) (\<lambda>c.
     Inr (b\<lparr>saturation_eqn := c\<rparr>))))))))))))"

text \<open>A constraint holds under an assignment when both sides have a value and agree.\<close>

fun satisfied :: "intrinsics \<Rightarrow> ('v \<Rightarrow> real option) \<Rightarrow> 'v constraint \<Rightarrow> bool" where
  "satisfied I env Skip = True"
| "satisfied I env (Equality a b) =
     (case eval_expr I env a of None \<Rightarrow> False
      | Some x \<Rightarrow> (case eval_expr I env b of None \<Rightarrow> False | Some y \<Rightarrow> x = y))"

subsection \<open>\<open>initialize\<close>\<close>

text \<open>
  The state that \<open>initialize\<close> acts on: for every variable of the block whether it is
  fixed and what value it has, and for every constraint whether it is active.
  \<open>Other_var\<close> and \<open>Other_con\<close> stand for the components of the control volumes that the
  condenser's own code never names.
\<close>

datatype hx_con =
  Unit_heat_balance real
  | Heat_transfer_equation real
  | Saturation_eqn real
  | Other_con string real

record blk_state =
  blk_time :: "real list"
  fixed :: "hx_var \<Rightarrow> bool"
  val :: "hx_var \<Rightarrow> real option"
  active :: "hx_con \<Rightarrow> bool"

text \<open>
  Modelled from the spec: \<open>StoreSpec.value_isfixed_isactive\<close>, \<open>to_json\<close> and \<open>from_json\<close>
  (\<open>idaes.core.util\<close>) are not among the sources at hand. The specification describes
  them as a snapshot mechanism that captures the fixed flags, the active flags and numeric
  values, and that restores the original fixed/active state; the source's comment adds that
  it restores fixed/free variables, active/inactive constraints and the values of fixed
  variables (\<open>only_fixed=True\<close>).
\<close>

record istate =
  is_fixed :: "hx_var \<Rightarrow> bool"
  fixed_value :: "hx_var \<Rightarrow> real option"
  is_active :: "hx_con \<Rightarrow> bool"

definition to_json :: "blk_state \<Rightarrow> istate" where
  "to_json blk =
     \<lparr>is_fixed = fixed blk,
      fixed_value = (\<lambda>v. if fixed blk v then val blk v else None),
      is_active = active blk\<rparr>"

definition from_json :: "blk_state \<Rightarrow> istate \<Rightarrow> blk_state" where
  "from_json blk sd =
     blk\<lparr>fixed := is_fixed sd,
         val := (\<lambda>v. if is_fixed sd v then fixed_value sd v else val blk v),
         active := is_active sd\<rparr>"

text \<open>
  The calls that leave the condenser's code: the initialisation of a control volume, which
  returns the flags that \<open>release_state\<close> takes back, and the solver, which returns its
  termination condition. Each may change the state in any way and may raise. The trace
  records, in order, the calls that \<open>initialize\<close> makes; a call of the solver is recorded
  with the state the solver is given.
\<close>

datatype termination_condition = Optimal | MaxIterations | Infeasible | OtherCondition

type_synonym flags = "(hx_var \<times> bool) list"

record externals =
  cv_initialize :: "side \<Rightarrow> blk_state \<Rightarrow> (error + flags) \<times> blk_state"
  solve :: "blk_state \<Rightarrow> (error + termination_condition) \<times> blk_state"
  release_state :: "side \<Rightarrow> flags \<Rightarrow> blk_state \<Rightarrow> (error + unit) \<times> blk_state"

datatype event =
  Ev_to_json
  | Ev_cv_initialize side
  | Ev_solve blk_state
  | Ev_release_state side
  | Ev_from_json

type_synonym 'a action = "blk_state \<times> event list \<Rightarrow> (error + 'a) \<times> blk_state \<times> event list"

definition bind_a :: "'a action \<Rightarrow> ('a \<Rightarrow> 'b action) \<Rightarrow> 'b action" where
  "bind_a m f = (\<lambda>w. case m w of (Inl e, w') \<Rightarrow> (Inl e, w') | (Inr x, w') \<Rightarrow> f x w')"

definition raise :: "error \<Rightarrow> 'a action" where
  "raise e = (\<lambda>w. (Inl e, w))"

definition return :: "'a \<Rightarrow> 'a action" where
  "return x = (\<lambda>w. (Inr x, w))"

text \<open>An external call on the block, recorded in the trace before it runs.\<close>

definition call :: "event \<Rightarrow> (blk_state \<Rightarrow> (error + 'a) \<times> blk_state) \<Rightarrow> 'a action" where
  "call ev f = (\<lambda>(blk, tr). case f blk of (r, blk') \<Rightarrow> (r, blk', tr @ [ev]))"

definition call_solve :: "externals \<Rightarrow> termination_condition action" where
  "call_solve ext = (\<lambda>(blk, tr). call (Ev_solve blk) (solve ext) (blk, tr))"

definition snapshot :: "istate action" where
  "snapshot = (\<lambda>(blk, tr). (Inr (to_json blk), blk, tr @ [Ev_to_json]))"

definition restore :: "istate \<Rightarrow> unit action" where
  "restore sd = (\<lambda>(blk, tr). (Inr (), from_json blk sd, tr @ [Ev_from_json]))"

text \<open>\<open>blk.saturation_eqn.activate()\<close>: the constraint becomes active at every time point.\<close>

definition saturation_eqn_activate :: "unit action" where
  "saturation_eqn_activate = (\<lambda>(blk, tr).
     (Inr (),
      blk\<lparr>active := (\<lambda>c. case c of
                Saturation_eqn t \<Rightarrow> (if t \<in> set (blk_time blk) then True else active blk c)
              | _ \<Rightarrow> active blk c)\<rparr>,
      tr))"

text \<open>
  \<open>properties_in[0].x.unfix()\<close>: the property block at the time index \<open>0\<close>, which raises
  \<open>KeyError\<close> when the time set has no point \<open>0\<close>.
\<close>

definition properties_in_0_unfix :: "(real \<Rightarrow> hx_var) \<Rightarrow> unit action" where
  "properties_in_0_unfix x = (\<lambda>(blk, tr).
     if 0 \<in> set (blk_time blk)
     then (Inr (), blk\<lparr>fixed := (fixed blk)(x 0 := False)\<rparr>, tr)
     else (Inl KeyError, blk, tr))"

definition initialize :: "externals \<Rightarrow> string \<Rightarrow> unit action" where
  "initialize ext unfix =
     (if unfix \<notin> {''hot_flow'', ''cold_flow'', ''pressure''} then raise Exception
      else
        bind_a snapshot (\<lambda>istate.
        bind_a (call (Ev_cv_initialize Side_1) (cv_initialize ext Side_1)) (\<lambda>flags1.
        bind_a (call (Ev_cv_initialize Side_2) (cv_initialize ext Side_2)) (\<lambda>flags2.
        bind_a saturation_eqn_activate (\<lambda>_.
        bind_a (if unfix = ''pressure'' then properties_in_0_unfix (Pressure_in Side_1)
                else if unfix = ''hot_flow'' then properties_in_0_unfix (Flow_mol_in Side_1)
                else if unfix = ''cold_flow'' then properties_in_0_unfix (Flow_mol_in Side_2)
                else return ()) (\<lambda>_.
        bind_a (call_solve ext) (\<lambda>res.
        bind_a (call (Ev_release_state Side_1) (release_state ext Side_1 flags1)) (\<lambda>_.
        bind_a (call (Ev_release_state Side_2) (release_state ext Side_2 flags2)) (\<lambda>_.
        restore istate)))))))))"

text \<open>
  The degree of freedom that the \<open>unfix\<close> argument selects, as a variable of the property
  block at a time point: the hot inlet pressure, the hot inlet flow or the cold inlet flow.
\<close>

definition selected :: "string \<Rightarrow> real \<Rightarrow> hx_var" where
  "selected unfix t =
     (if unfix = ''pressure'' then Pressure_in Side_1 t
      else if unfix = ''hot_flow'' then Flow_mol_in Side_1 t
      else Flow_mol_in Side_2 t)"

subsection \<open>The invariant of the output limits, as the specification states it\<close>

definition limits_ordered :: "PIDBlock \<Rightarrow> bool" where
  "limits_ordered b =
     (case map_of (limits b) ''l'' of None \<Rightarrow> False
      | Some l \<Rightarrow> (case map_of (limits b) ''h'' of None \<Rightarrow> False | Some h \<Rightarrow> l \<le> h))"

subsection \<open>Sample configurations and assignments\<close>

text \<open>
  A controller over the time set \<open>{0, 1, 3}\<close> with the default limits, and an assignment
  under which the setpoint steps from \<open>0.5\<close> to \<open>0.6\<close> after the first point while the
  measured variable stays at \<open>0.5\<close>. The smoothed limiters are evaluated as the exact
  maximum and minimum.
\<close>

definition example_config :: pid_config where
  "example_config = CONFIG\<lparr>config_pv := Some [0, 1, 3], config_output := Some [0, 1, 3]\<rparr>"

definition example_time :: "real list" where
  "example_time = [0, 1, 3]"

definition example_intrinsics :: intrinsics where
  "example_intrinsics = \<lparr>smooth_max_fn = (\<lambda>a b e. max a b), smooth_min_fn = (\<lambda>a b e. min a b)\<rparr>"

definition example_env :: "pid_var \<Rightarrow> real option" where
  "example_env v =
     (case v of
        Setpoint t \<Rightarrow> Some (if t = 0 then 1 / 2 else 3 / 5)
      | Gain t \<Rightarrow> Some 2
      | Time_i t \<Rightarrow> Some 10
      | Time_d t \<Rightarrow> Some 1
      | Err_d0 \<Rightarrow> Some 0
      | Err_i0 \<Rightarrow> Some 0
      | Pv t \<Rightarrow> Some (1 / 2)
      | Output t \<Rightarrow> Some (1 / 2)
      | Limits k \<Rightarrow> Some (if k = ''l'' then 0 else 1)
      | Smooth_eps \<Rightarrow> Some (1 / 10000))"

definition example_iterm :: "real \<Rightarrow> real" where
  "example_iterm t = (if t = 0 then 1 / 2 else 3 / 5) - 1 / 2"

text \<open>A configuration whose lower limit is above its upper limit.\<close>

definition inverted_config :: pid_config where
  "inverted_config = CONFIG\<lparr>config_pv := Some [0, 1], config_output := Some [0, 1],
     lower := 2, upper := 1\<rparr>"

text \<open>
  Controllers over time sets that do not start at \<open>0\<close>: \<open>{10, 20}\<close>, which has no point
  \<open>0\<close>, and \<open>{-1, 0}\<close>, with an assignment in which the output is \<open>1\<close> at the first point
  and \<open>2\<close> at the point \<open>0\<close>.
\<close>

definition late_config :: pid_config where
  "late_config = CONFIG\<lparr>config_pv := Some [10, 20], config_output := Some [10, 20]\<rparr>"

definition early_config :: pid_config where
  "early_config = CONFIG\<lparr>config_pv := Some [-1, 0], config_output := Some [-1, 0]\<rparr>"

definition early_env :: "pid_var \<Rightarrow> real option" where
  "early_env v =
     (case v of
        Output t \<Rightarrow> Some (if t = 0 then 2 else 1)
      | Pv t \<Rightarrow> Some 0
      | Err_d0 \<Rightarrow> Some 0
      | _ \<Rightarrow> Some 1)"

text \<open>
  A condenser with the default side names, and the assignment of the specification's
  scenario: \<open>U = 100\<close>, \<open>area = 1000\<close>, \<open>mcp_min = 50\<close>.
\<close>

definition example_hx_config :: hx_config where
  "example_hx_config = \<lparr>hot_side_name = ''shell'', cold_side_name = ''tube'',
     implicit_options = [''shell'', ''tube'']\<rparr>"

definition example_hx_env :: "hx_var \<Rightarrow> real option" where
  "example_hx_env v =
     (case v of
        Overall_heat_transfer_coefficient t \<Rightarrow> Some 100
      | Area \<Rightarrow> Some 1000
      | Heat s t \<Rightarrow> Some (if s = Side_1 then - 3650 else 3650)
      | Flow_mol_in s t \<Rightarrow> Some 50
      | Cp_mol_phase_liq_in s t \<Rightarrow> Some 1
      | Temperature_sat_in s t \<Rightarrow> Some 373
      | _ \<Rightarrow> Some 300)"

subsection \<open>A sample block and sample external calls\<close>

text \<open>
  A block over the time set \<open>{0, 1}\<close> in which only the area is fixed and the saturation
  constraint is inactive; control volume initialisations that fix every variable; and a
  solver that changes the values and reports that it ran out of iterations.
\<close>

definition example_blk :: blk_state where
  "example_blk =
     \<lparr>blk_time = [0, 1], fixed = (\<lambda>v. v = Area), val = (\<lambda>v. Some 1),
      active = (\<lambda>c. case c of Saturation_eqn t \<Rightarrow> False | _ \<Rightarrow> True)\<rparr>"

definition example_ext :: externals where
  "example_ext =
     \<lparr>cv_initialize = (\<lambda>s blk. (Inr [], blk\<lparr>fixed := (\<lambda>v. True)\<rparr>)),
      solve = (\<lambda>blk. (Inr MaxIterations, blk\<lparr>val := (\<lambda>v. Some 2)\<rparr>)),
      release_state = (\<lambda>s f blk. (Inr (), blk))\<rparr>"

section \<open>Properties of the components\<close>


lemma bind_e_Inr_iff: "bind_e m f = Inr y \<longleftrightarrow> (\<exists>x. m = Inr x \<and> f x = Inr y)"
  by (cases m) (simp_all add: bind_e_def)

lemma bind_e_Inr [simp]: "bind_e (Inr x) f = f x"
  by (simp add: bind_e_def)

lemma bind_e_Inl [simp]: "bind_e (Inl e) f = Inl e"
  by (simp add: bind_e_def)

lemma getitem_Expression:
  "Expression idx rule = Inr tbl \<Longrightarrow>
     getitem tbl t = (if t \<in> set idx then rule t else Inl KeyError)"
proof (induction idx arbitrary: tbl)
  case Nil
  then show ?case by (simp add: Expression_def getitem_def)
next
  case (Cons x xs)
  from Cons.prems obtain e tl where e: "rule x = Inr e"
    and tl: "Expression xs rule = Inr tl" and tbl: "tbl = (x, e) # tl"
    by (auto simp: Expression_def bind_e_Inr_iff)
  from Cons.IH [OF tl] show ?case
    by (simp add: tbl e getitem_def)
qed

lemma map_fst_Expression: "Expression idx rule = Inr tbl \<Longrightarrow> map fst tbl = idx"
proof (induction idx arbitrary: tbl)
  case Nil
  then show ?case by (simp add: Expression_def)
next
  case (Cons x xs)
  from Cons.prems obtain e tl where e: "rule x = Inr e"
    and tl: "Expression xs rule = Inr tl" and tbl: "tbl = (x, e) # tl"
    by (auto simp: Expression_def bind_e_Inr_iff)
  from Cons.IH [OF tl] show ?case by (simp add: tbl)
qed


lemma Constraint_Cons:
  "Constraint (x # xs) rule = Inr tbl \<longleftrightarrow>
     (\<exists>c tl. rule x = Inr c \<and> Constraint xs rule = Inr tl \<and>
        tbl = (if c = Skip then tl else (x, c) # tl))"
  by (auto simp: Constraint_def Expression_def bind_e_Inr_iff)

lemma getitem_Constraint:
  "Constraint idx rule = Inr tbl \<Longrightarrow>
     getitem tbl t =
       (if t \<in> set idx then (if rule t = Inr Skip then Inl KeyError else rule t)
        else Inl KeyError)"
proof (induction idx arbitrary: tbl)
  case Nil
  then show ?case by (simp add: Constraint_def Expression_def getitem_def)
next
  case (Cons x xs)
  from Cons.prems obtain c tl where c: "rule x = Inr c"
    and tl: "Constraint xs rule = Inr tl"
    and tbl: "tbl = (if c = Skip then tl else (x, c) # tl)"
    by (auto simp: Constraint_Cons)
  have ih: "getitem tl t =
       (if t \<in> set xs then (if rule t = Inr Skip then Inl KeyError else rule t)
        else Inl KeyError)"
    by (rule Cons.IH [OF tl])
  show ?case
  proof (cases "c = Skip")
    case True
    with ih c tbl show ?thesis by auto
  next
    case False
    with ih c tbl show ?thesis by (auto simp: getitem_def)
  qed
qed

lemma map_fst_Constraint:
  "Constraint idx rule = Inr tbl \<Longrightarrow> map fst tbl = filter (\<lambda>t. rule t \<noteq> Inr Skip) idx"
proof (induction idx arbitrary: tbl)
  case Nil
  then show ?case by (simp add: Constraint_def Expression_def)
next
  case (Cons x xs)
  from Cons.prems obtain c tl where c: "rule x = Inr c"
    and tl: "Constraint xs rule = Inr tl"
    and tbl: "tbl = (if c = Skip then tl else (x, c) # tl)"
    by (auto simp: Constraint_Cons)
  from Cons.IH [OF tl] c tbl show ?case by simp
qed

lemmas rule_defs = err_rule_def pterm_rule_def dterm_rule_def iterm_rule_def err_d_rule_def
  err_i0_rule_def err_i_rule_def trapezoid_rule_def unconstrained_output_rule_def
  output_constraint_rule_def getattr_err_i0_def

lemma pid_build_Inr:
  assumes "pid_build config ts = Inr b"
  shows "first ts = Inr (t0 b)"
    and "time_set b = ts"
    and "setpoint b = ts" and "gain b = ts" and "time_i b = ts" and "time_d b = ts"
    and "config_pv config = Some (pv b)"
    and "config_output config = Some (output' b)"
    and "limits b = [(''l'', lower config), (''h'', upper config)]"
    and "smooth_eps b = 1 / 10000"
    and "Expression ts (err_rule b) = Inr (err b)"
    and "Expression ts (pterm_rule b) = Inr (pterm b)"
    and "Expression ts (dterm_rule b) = Inr (dterm b)"
    and "Expression ts (iterm_rule b) = Inr (iterm b)"
    and "Expression ts (err_d_rule b) = Inr (err_d b)"
    and "if calculate_initial_integral config
         then (\<exists>e. err_i0_rule b = Inr e \<and> err_i0 b = Some e)
         else err_i0 b = Some (V Err_i0)"
    and "Expression ts (err_i_rule b) = Inr (err_i b)"
    and "Expression ts (unconstrained_output_rule b) = Inr (unconstrained_output b)"
    and "Constraint ts (output_constraint_rule b) = Inr (output_constraint b)"
  using assms
  unfolding pid_build_def new_block_def Let_def
  by (auto simp: bind_e_Inr_iff rule_defs split: option.splits if_splits cong: if_cong)


lemma getitem_Inr_iff: "getitem tbl t = Inr e \<longleftrightarrow> map_of tbl t = Some e"
  by (simp add: getitem_def split: option.splits)

lemma value_at_getitem: "getitem tbl t = Inr e \<Longrightarrow> value_at I env tbl t = eval_expr I env e"
  by (simp add: getitem_Inr_iff value_at_def)

lemma traverse_Inr_iff: "traverse f xs = Inr ys \<longleftrightarrow> list_all2 (\<lambda>x y. f x = Inr y) xs ys"
proof (induction xs arbitrary: ys)
  case Nil
  show ?case by auto
next
  case (Cons x xs)
  show ?case by (cases ys) (auto simp: bind_e_Inr_iff Cons.IH)
qed

lemma prev_from_mem: "t \<in> set xs \<Longrightarrow> \<exists>q. prev_from p xs t = Inr q \<and> q \<in> set (p # xs)"
proof (induction xs arbitrary: p)
  case Nil
  then show ?case by simp
next
  case (Cons x xs)
  show ?case
  proof (cases "t = x")
    case True
    then show ?thesis by simp
  next
    case False
    with Cons.prems have "t \<in> set xs" by simp
    from Cons.IH [OF this, of x] False show ?thesis by auto
  qed
qed

lemma prev_mem:
  assumes "t \<in> set ts" "first ts = Inr x0" "t \<noteq> x0"
  shows "\<exists>q. prev ts t = Inr q \<and> q \<in> set ts"
proof (cases ts)
  case Nil
  with assms show ?thesis by simp
next
  case (Cons x xs)
  with assms have "t \<in> set xs" "t \<noteq> x" by (auto simp: first_def)
  with prev_from_mem [of t xs x] Cons show ?thesis by (simp add: prev_def)
qed

lemma Expression_entry:
  assumes "Expression idx rule = Inr tbl" "t \<in> set idx"
  shows "\<exists>e. rule t = Inr e \<and> getitem tbl t = Inr e"
proof -
  from assms have "t \<in> fst ` set tbl"
    using map_fst_Expression [OF assms(1)] by (metis set_map)
  then obtain e where "map_of tbl t = Some e"
    by (metis domD dom_map_of_conv_image_fst)
  then have ge: "getitem tbl t = Inr e" by (simp add: getitem_Inr_iff)
  have "getitem tbl t = rule t"
    using getitem_Expression [OF assms(1), of t] assms(2) by simp
  with ge have "rule t = Inr e \<and> getitem tbl t = Inr e" by simp
  then show ?thesis ..
qed

lemma eval_foldl_Add:
  "eval_expr I env acc = Some a \<Longrightarrow> list_all2 (\<lambda>e v. eval_expr I env e = Some v) es vs \<Longrightarrow>
     eval_expr I env (foldl Add acc es) = Some (a + sum_list vs)"
proof (induction es arbitrary: acc a vs)
  case Nil
  then show ?case by simp
next
  case (Cons e es)
  from Cons.prems(2) obtain v vs' where vs: "vs = v # vs'" and v: "eval_expr I env e = Some v"
    and rest: "list_all2 (\<lambda>e v. eval_expr I env e = Some v) es vs'"
    by (auto simp: list_all2_Cons1)
  have "eval_expr I env (Add acc e) = Some (a + v)"
    by (simp add: Cons.prems(1) v lift2_def)
  from Cons.IH [OF this rest] show ?case by (simp add: vs add.assoc)
qed

lemma eval_sum_py:
  "list_all2 (\<lambda>e v. eval_expr I env e = Some v) es vs \<Longrightarrow>
     eval_expr I env (sum_py es) = Some (sum_list vs)"
  using eval_foldl_Add [of I env "Num 0" 0 es vs] by (simp add: sum_py_def)

text \<open>The value of one trapezoid term.\<close>

lemma eval_trapezoid:
  assumes b: "pid_build config ts = Inr b"
    and it: "\<forall>t\<in>set ts. value_at I env (iterm b) t = Some (it t)"
    and t: "t \<in> set ts" "t \<noteq> t0 b"
    and e: "trapezoid_rule b t = Inr e"
  shows "eval_expr I env e = Some ((it t + it (projr (prev ts t))) * (t - projr (prev ts t)) / 2)"
proof -
  from prev_mem [OF t(1) pid_build_Inr(1) [OF b] t(2)]
  obtain q where q: "prev ts t = Inr q" "q \<in> set ts" by blast
  from e obtain i ip where i: "getitem (iterm b) t = Inr i" and ip: "getitem (iterm b) q = Inr ip"
    and e': "e = Divide (Mul (Add i ip) (Num (t - q))) (Num 2)"
    by (auto simp: trapezoid_rule_def bind_e_Inr_iff pid_build_Inr(2) [OF b] q)
  from it t(1) value_at_getitem [OF i, of I env] have vi: "eval_expr I env i = Some (it t)"
    by auto
  from it q(2) value_at_getitem [OF ip, of I env] have vip: "eval_expr I env ip = Some (it q)"
    by auto
  show ?thesis by (simp add: e' vi vip q lift2_def divide_val_def)
qed

lemma err_i_value_code:
  assumes b: "pid_build config ts = Inr b"
    and it: "\<forall>t\<in>set ts. value_at I env (iterm b) t = Some (it t)"
    and v0: "err_i0_value I env b = Some v0"
    and t_end: "t_end \<in> set ts"
  shows "value_at I env (err_i b) t_end =
    Some (v0 + (\<Sum>t\<leftarrow>filter (\<lambda>t. t \<le> t_end \<and> t > t0 b) ts.
                  (it t + it (projr (prev ts t))) * (t - projr (prev ts t)) / 2))"
proof -
  let ?ts' = "filter (\<lambda>t. t \<le> t_end \<and> t > t0 b) ts"
  let ?g = "\<lambda>t. (it t + it (projr (prev ts t))) * (t - projr (prev ts t)) / 2"
  from Expression_entry [OF pid_build_Inr(17) [OF b] t_end]
  obtain e where e: "err_i_rule b t_end = Inr e" and g: "getitem (err_i b) t_end = Inr e"
    by blast
  from e obtain e0 terms where e0: "err_i0 b = Some e0"
    and terms: "list_all2 (\<lambda>t e. trapezoid_rule b t = Inr e) ?ts' terms"
    and e': "e = Add e0 (sum_py terms)"
    by (auto simp: err_i_rule_def getattr_err_i0_def bind_e_Inr_iff traverse_Inr_iff
        pid_build_Inr(2) [OF b] split: option.splits)
  have "list_all2 (\<lambda>e v. eval_expr I env e = Some v) terms (map ?g ?ts')"
    unfolding list_all2_conv_all_nth
  proof (intro conjI allI impI)
    show "length terms = length (map ?g ?ts')"
      using terms by (simp add: list_all2_lengthD)
  next
    fix i assume i: "i < length terms"
    with terms have len: "i < length ?ts'" by (simp add: list_all2_lengthD)
    then have mem: "?ts' ! i \<in> set ?ts'" by (rule nth_mem)
    from terms len have r: "trapezoid_rule b (?ts' ! i) = Inr (terms ! i)"
      by (simp add: list_all2_conv_all_nth)
    from mem have "?ts' ! i \<in> set ts" "?ts' ! i \<noteq> t0 b" by auto
    from eval_trapezoid [OF b it this r] len
    show "eval_expr I env (terms ! i) = Some (map ?g ?ts' ! i)" by simp
  qed
  from eval_sum_py [OF this] have "eval_expr I env (sum_py terms) = Some (sum_list (map ?g ?ts'))" .
  moreover from v0 e0 have "eval_expr I env e0 = Some v0" by (simp add: err_i0_value_def)
  ultimately have "eval_expr I env e = Some (v0 + sum_list (map ?g ?ts'))"
    by (simp add: e' lift2_def)
  with value_at_getitem [OF g] show ?thesis by simp
qed

subsection \<open>When \<open>build\<close> returns a block\<close>

text \<open>
  \<open>build\<close> of the PID block returns when both references are given and indexed over
  the time set, the time set is not empty and, where the initial integral is calculated,
  the output has the index \<open>0\<close>. \<open>build\<close> of the condenser returns whenever the
  configuration is accepted.
\<close>

lemma Expression_Inl:
  "Expression idx rule = Inl e \<Longrightarrow> \<exists>t\<in>set idx. rule t = Inl e"
proof (induction idx)
  case Nil
  then show ?case by (simp add: Expression_def)
next
  case (Cons x xs)
  show ?case
  proof (cases "rule x")
    case (Inl e')
    with Cons.prems show ?thesis by (simp add: Expression_def)
  next
    case (Inr y)
    show ?thesis
    proof (cases "Expression xs rule")
      case (Inl e')
      with Cons.prems Inr have "e' = e" by (simp add: Expression_def)
      with Cons.IH Inl show ?thesis by auto
    next
      case (Inr ys)
      with Cons.prems \<open>rule x = Inr y\<close> show ?thesis by (simp add: Expression_def)
    qed
  qed
qed

lemma Expression_succeeds:
  assumes "\<And>t. t \<in> set idx \<Longrightarrow> \<exists>x. rule t = Inr x"
  shows "\<exists>tbl. Expression idx rule = Inr tbl"
proof (cases "Expression idx rule")
  case (Inl e)
  from Expression_Inl [OF this] obtain t where "t \<in> set idx" "rule t = Inl e" by blast
  with assms [of t] show ?thesis by auto
next
  case (Inr tbl)
  then show ?thesis by blast
qed

lemma Constraint_succeeds:
  assumes "\<And>t. t \<in> set idx \<Longrightarrow> \<exists>x. rule t = Inr x"
  shows "\<exists>tbl. Constraint idx rule = Inr tbl"
  using Expression_succeeds [of idx rule, OF assms] by (auto simp: Constraint_def)

lemma prev_neq:
  assumes "distinct ts" "prev ts t = Inr q"
  shows "q \<noteq> t"
proof -
  have *: "prev_from p xs t = Inr q \<Longrightarrow> t \<notin> set [p] \<Longrightarrow> distinct xs \<Longrightarrow> p \<notin> set xs \<Longrightarrow> q \<noteq> t"
    for p xs
  proof (induction xs arbitrary: p)
    case Nil
    then show ?case by simp
  next
    case (Cons y ys)
    show ?case
    proof (cases "t = y")
      case True
      with Cons.prems show ?thesis by auto
    next
      case False
      with Cons.prems Cons.IH [of y] show ?thesis by auto
    qed
  qed
  show ?thesis
  proof (cases ts)
    case Nil
    with assms show ?thesis by (simp add: prev_def)
  next
    case (Cons x xs)
    with assms * [of x xs] show ?thesis by (auto simp: prev_def split: if_splits)
  qed
qed


lemma traverse_succeeds:
  "(\<And>x. x \<in> set xs \<Longrightarrow> \<exists>y. f x = Inr y) \<Longrightarrow> \<exists>ys. traverse f xs = Inr ys"
proof (induction xs)
  case Nil
  show ?case by simp
next
  case (Cons x xs)
  from Cons.prems [of x] obtain y where y: "f x = Inr y" by auto
  from Cons.IH Cons.prems obtain ys where "traverse f xs = Inr ys" by auto
  with y show ?case by simp
qed

lemma pid_build_succeeds:
  assumes pv: "config_pv config = Some p" "set ts \<subseteq> set p"
    and out: "config_output config = Some out" "set ts \<subseteq> set out"
    and zero: "calculate_initial_integral config \<Longrightarrow> 0 \<in> set out"
    and ts: "ts \<noteq> []" "distinct ts"
  shows "\<exists>b. pid_build config ts = Inr b"
proof -
  from ts(1) obtain x0 xs where tsx: "ts = x0 # xs" by (cases ts) auto
  then have f: "first ts = Inr x0" and x0: "x0 \<in> set ts" by (simp_all add: first_def)
  have pr: "\<exists>q. prev ts t = Inr q \<and> q \<in> set ts \<and> t - q \<noteq> 0" if "t \<in> set ts" "t \<noteq> x0" for t
  proof -
    from prev_mem [OF that(1) f that(2)] obtain q where q: "prev ts t = Inr q" "q \<in> set ts"
      by blast
    with prev_neq [OF ts(2) q(1)] show ?thesis by auto
  qed
  define b0 where "b0 = (new_block ts x0)\<lparr>setpoint := ts, gain := ts, time_i := ts, time_d := ts\<rparr>"
  define b1 where "b1 = b0\<lparr>var_value := [(Err_d0, 0)], var_fixed := [Err_d0]\<rparr>"
  define b2 where "b2 = (if \<not> calculate_initial_integral config
              then b1\<lparr>err_i0 := Some (V Err_i0),
                     var_value := var_value b1 @ [(Err_i0, 0)],
                     var_fixed := var_fixed b1 @ [Err_i0]\<rparr>
              else b1)"
  define b3 where "b3 = b2\<lparr>pv := p, output' := out\<rparr>"
  have sel3: "setpoint b3 = ts" "gain b3 = ts" "time_i b3 = ts" "time_d b3 = ts" "pv b3 = p"
    "output' b3 = out" "t0 b3 = x0" "time_set b3 = ts"
    "err_i0 b3 = (if calculate_initial_integral config then None else Some (V Err_i0))"
    by (simp_all add: b3_def b2_def b1_def b0_def new_block_def)
  have "\<exists>e. err_rule b3 t = Inr e" if "t \<in> set ts" for t
    using that pv(2) by (auto simp: err_rule_def sel3 getvar_def)
  from Expression_succeeds [of ts "err_rule b3", OF this]
  obtain c_err where c_err: "Expression ts (err_rule b3) = Inr c_err" by blast
  define b4 where "b4 = b3\<lparr>err := c_err\<rparr>"
  have "\<exists>e. pterm_rule b4 t = Inr e" if "t \<in> set ts" for t
    using that pv(2) by (auto simp: pterm_rule_def sel3 getvar_def b4_def)
  from Expression_succeeds [of ts "pterm_rule b4", OF this]
  obtain c_pterm where c_pterm: "Expression ts (pterm_rule b4) = Inr c_pterm" by blast
  define b5 where "b5 = b4\<lparr>pterm := c_pterm\<rparr>"
  have "\<exists>e. dterm_rule b5 t = Inr e" if "t \<in> set ts" for t
    using that pv(2) by (auto simp: dterm_rule_def sel3 getvar_def b4_def b5_def)
  from Expression_succeeds [of ts "dterm_rule b5", OF this]
  obtain c_dterm where c_dterm: "Expression ts (dterm_rule b5) = Inr c_dterm" by blast
  define b6 where "b6 = b5\<lparr>dterm := c_dterm\<rparr>"
  have g_err: "getitem c_err t = err_rule b3 t" if "t \<in> set ts" for t
    using getitem_Expression [OF c_err, of t] that by simp
  have ok_err: "\<exists>e. getitem c_err t = Inr e" if "t \<in> set ts" for t
    using g_err [OF that] that pv(2) by (auto simp: err_rule_def sel3 getvar_def)
  have "\<exists>e. iterm_rule b6 t = Inr e" if "t \<in> set ts" for t
    using ok_err [OF that] by (auto simp: iterm_rule_def b6_def b5_def b4_def)
  from Expression_succeeds [of ts "iterm_rule b6", OF this]
  obtain c_iterm where c_iterm: "Expression ts (iterm_rule b6) = Inr c_iterm" by blast
  define b7 where "b7 = b6\<lparr>iterm := c_iterm\<rparr>"
  define b8 where "b8 = b7\<lparr>limits := [(''l'', lower config), (''h'', upper config)]\<rparr>"
  define b9 where "b9 = b8\<lparr>smooth_eps := 1 / 10000\<rparr>"
  have ok_dterm: "\<exists>e. getitem c_dterm t = Inr e" if "t \<in> set ts" for t
    using getitem_Expression [OF c_dterm, of t] that pv(2)
    by (auto simp: dterm_rule_def sel3 getvar_def b4_def b5_def)
  have ok_pterm: "\<exists>e. getitem c_pterm t = Inr e" if "t \<in> set ts" for t
    using getitem_Expression [OF c_pterm, of t] that pv(2)
    by (auto simp: pterm_rule_def sel3 getvar_def b4_def)
  have ok_iterm: "\<exists>e. getitem c_iterm t = Inr e" if "t \<in> set ts" for t
    using getitem_Expression [OF c_iterm, of t] that ok_err [OF that]
    by (auto simp: iterm_rule_def b6_def b5_def b4_def)
  have sel9: "dterm b9 = c_dterm" "pterm b9 = c_pterm" "iterm b9 = c_iterm" "t0 b9 = x0"
    "time_set b9 = ts" "gain b9 = ts" "time_i b9 = ts" "time_d b9 = ts" "output' b9 = out"
    "err_i0 b9 = (if calculate_initial_integral config then None else Some (V Err_i0))"
    by (simp_all add: b9_def b8_def b7_def b6_def b5_def b4_def sel3)
  have "\<exists>e. err_d_rule b9 t = Inr e" if "t \<in> set ts" for t
  proof (cases "t = x0")
    case True
    then show ?thesis by (simp add: err_d_rule_def sel9)
  next
    case False
    from pr [OF that False] obtain q where q: "prev ts t = Inr q" "q \<in> set ts" "t - q \<noteq> 0"
      by blast
    from ok_dterm [OF that] ok_dterm [OF q(2)] q False show ?thesis
      by (auto simp: err_d_rule_def sel9 divide_num_def)
  qed
  from Expression_succeeds [of ts "err_d_rule b9", OF this]
  obtain c_err_d where c_err_d: "Expression ts (err_d_rule b9) = Inr c_err_d" by blast
  define b10 where "b10 = b9\<lparr>err_d := c_err_d\<rparr>"
  have ok_err_d: "\<exists>e. getitem c_err_d t = Inr e" if "t \<in> set ts" for t
    using Expression_entry [OF c_err_d that] by blast
  have sel10: "dterm b10 = c_dterm" "pterm b10 = c_pterm" "iterm b10 = c_iterm" "t0 b10 = x0"
    "time_set b10 = ts" "gain b10 = ts" "time_i b10 = ts" "time_d b10 = ts" "output' b10 = out"
    "err_d b10 = c_err_d"
    "err_i0 b10 = (if calculate_initial_integral config then None else Some (V Err_i0))"
    by (simp_all add: b10_def sel9)
  have "\<exists>e. calculate_initial_integral config \<longrightarrow> err_i0_rule b10 = Inr e"
  proof (cases "calculate_initial_integral config")
    case True
    from ok_pterm [OF x0] ok_err_d [OF x0] zero [OF True] x0
    show ?thesis by (auto simp: err_i0_rule_def sel10 getvar_def)
  next
    case False
    then show ?thesis by simp
  qed
  then obtain e_i0 where e_i0: "calculate_initial_integral config \<longrightarrow> err_i0_rule b10 = Inr e_i0" ..
  define b11 where "b11 = (if calculate_initial_integral config
      then b10\<lparr>err_i0 := Some e_i0\<rparr> else b10)"
  have b11: "(if calculate_initial_integral config
             then bind_e (err_i0_rule b10) (\<lambda>e. Inr (b10\<lparr>err_i0 := Some e\<rparr>))
             else Inr b10) = Inr b11"
    using e_i0 by (simp add: b11_def)
  have e11: "\<exists>e. err_i0 b11 = Some e"
    by (simp add: b11_def sel10(11))
  have sel11: "dterm b11 = c_dterm" "pterm b11 = c_pterm" "iterm b11 = c_iterm"
    "t0 b11 = x0" "time_set b11 = ts" "gain b11 = ts" "time_i b11 = ts" "time_d b11 = ts"
    "output' b11 = out" "err_d b11 = c_err_d"
    by (simp_all add: b11_def sel10)
  have "\<exists>e. trapezoid_rule b11 t = Inr e" if "t \<in> set ts" "t \<noteq> x0" for t
  proof -
    from pr [OF that] obtain q where q: "prev ts t = Inr q" "q \<in> set ts" by blast
    from ok_iterm [OF that(1)] ok_iterm [OF q(2)] q show ?thesis
      by (auto simp: trapezoid_rule_def sel11)
  qed
  then have tr: "\<exists>terms. traverse (trapezoid_rule b11) (filter (\<lambda>t. t \<le> t_end \<and> x0 < t) ts) = Inr terms"
    for t_end
    by (intro traverse_succeeds) auto
  have "\<exists>e. err_i_rule b11 t = Inr e" for t
    using tr [of t] e11 by (auto simp: err_i_rule_def getattr_err_i0_def sel11)
  from Expression_succeeds [of ts "err_i_rule b11", OF this]
  obtain c_err_i where c_err_i: "Expression ts (err_i_rule b11) = Inr c_err_i" by blast
  define b12 where "b12 = b11\<lparr>err_i := c_err_i\<rparr>"
  have "\<exists>e. unconstrained_output_rule b12 t = Inr e" if "t \<in> set ts" for t
    using ok_pterm [OF that] ok_err_d [OF that] Expression_entry [OF c_err_i that] that
    by (auto simp: unconstrained_output_rule_def b12_def sel11 getvar_def)
  from Expression_succeeds [of ts "unconstrained_output_rule b12", OF this]
  obtain c_uo where c_uo: "Expression ts (unconstrained_output_rule b12) = Inr c_uo" by blast
  define b13 where "b13 = b12\<lparr>unconstrained_output := c_uo\<rparr>"
  have "\<exists>e. output_constraint_rule b13 t = Inr e" if "t \<in> set ts" for t
    using Expression_entry [OF c_uo that] that out(2)
    by (auto simp: output_constraint_rule_def b13_def b12_def sel11 getvar_def)
  from Constraint_succeeds [of ts "output_constraint_rule b13", OF this]
  obtain c_oc where c_oc: "Constraint ts (output_constraint_rule b13) = Inr c_oc" by blast
  have "pid_build config ts = Inr (b13\<lparr>output_constraint := c_oc\<rparr>)"
    unfolding pid_build_def Let_def pv(1) out(1) option.case f bind_e_Inr
    unfolding b0_def [symmetric] b1_def [symmetric]
    unfolding b2_def [symmetric] b3_def [symmetric]
    unfolding c_err bind_e_Inr b4_def [symmetric]
    unfolding c_pterm bind_e_Inr b5_def [symmetric]
    unfolding c_dterm bind_e_Inr b6_def [symmetric]
    unfolding c_iterm bind_e_Inr b7_def [symmetric] b8_def [symmetric] b9_def [symmetric]
    unfolding c_err_d bind_e_Inr b10_def [symmetric]
    unfolding b11 bind_e_Inr
    unfolding c_err_i bind_e_Inr b12_def [symmetric]
    unfolding c_uo bind_e_Inr b13_def [symmetric]
    unfolding c_oc bind_e_Inr
    by (rule refl)
  then show ?thesis ..
qed

lemma condenser_build_succeeds:
  assumes "process_config config = Inr ()"
  shows "\<exists>b. condenser_build config ts = Inr b"
proof -
  define b0 where "b0 = (new_condenser ts)\<lparr>overall_heat_transfer_coefficient := ts\<rparr>"
  have sel0: "time b0 = ts" "overall_heat_transfer_coefficient b0 = ts"
    by (simp_all add: b0_def new_condenser_def)
  have "\<exists>e. unit_heat_balance_rule b0 t = Inr e" if "t \<in> set ts" for t
    using that by (simp add: unit_heat_balance_rule_def getvar_def sel0)
  from Constraint_succeeds [of ts "unit_heat_balance_rule b0", OF this]
  obtain c1 where c1: "Constraint ts (unit_heat_balance_rule b0) = Inr c1" by blast
  define b1 where "b1 = b0\<lparr>unit_heat_balance := c1\<rparr>"
  have "\<exists>e. delta_temperature_in_rule b1 t = Inr e" if "t \<in> set ts" for t
    using that by (simp add: delta_temperature_in_rule_def getvar_def sel0 b1_def)
  from Expression_succeeds [of ts "delta_temperature_in_rule b1", OF this]
  obtain c2 where c2: "Expression ts (delta_temperature_in_rule b1) = Inr c2" by blast
  define b2 where "b2 = b1\<lparr>delta_temperature_in := c2\<rparr>"
  have "\<exists>e. delta_temperature_out_rule b2 t = Inr e" if "t \<in> set ts" for t
    using that by (simp add: delta_temperature_out_rule_def getvar_def sel0 b1_def b2_def)
  from Expression_succeeds [of ts "delta_temperature_out_rule b2", OF this]
  obtain c3 where c3: "Expression ts (delta_temperature_out_rule b2) = Inr c3" by blast
  define b3 where "b3 = b2\<lparr>delta_temperature_out := c3\<rparr>"
  have "\<exists>e. delta_temperature_ntu_rule b3 t = Inr e" if "t \<in> set ts" for t
    using that
    by (simp add: delta_temperature_ntu_rule_def getvar_def sel0 b1_def b2_def b3_def)
  from Expression_succeeds [of ts "delta_temperature_ntu_rule b3", OF this]
  obtain c4 where c4: "Expression ts (delta_temperature_ntu_rule b3) = Inr c4" by blast
  define b4 where "b4 = b3\<lparr>delta_temperature_ntu := c4\<rparr>"
  have sel4: "time b4 = ts" "overall_heat_transfer_coefficient b4 = ts"
    by (simp_all add: b4_def b3_def b2_def b1_def sel0)
  have "\<exists>e. mcp_min_rule b4 t = Inr e" if "t \<in> set ts" for t
    using that by (simp add: mcp_min_rule_def getvar_def sel4)
  from Expression_succeeds [of ts "mcp_min_rule b4", OF this]
  obtain c5 where c5: "Expression ts (mcp_min_rule b4) = Inr c5" by blast
  define b5 where "b5 = b4\<lparr>mcp_min := c5\<rparr>"
  have "\<exists>e. ntu_rule b5 t = Inr e" if "t \<in> set ts" for t
    using that Expression_entry [OF c5 that]
    by (auto simp: ntu_rule_def getvar_def sel4 b5_def)
  from Expression_succeeds [of ts "ntu_rule b5", OF this]
  obtain c6 where c6: "Expression ts (ntu_rule b5) = Inr c6" by blast
  define b6 where "b6 = b5\<lparr>ntu := c6\<rparr>"
  have "\<exists>e. effectiveness_rule b6 t = Inr e" if "t \<in> set ts" for t
    using Expression_entry [OF c6 that] by (auto simp: effectiveness_rule_def b6_def)
  from Expression_succeeds [of ts "effectiveness_rule b6", OF this]
  obtain c7 where c7: "Expression ts (effectiveness_rule b6) = Inr c7" by blast
  define b7 where "b7 = b6\<lparr>effectiveness := c7\<rparr>"
  have "\<exists>e. heat_transfer_rule b7 t = Inr e" if "t \<in> set ts" for t
    using that Expression_entry [OF c7 that] Expression_entry [OF c5 that]
    by (auto simp: heat_transfer_rule_def getvar_def sel4 b7_def b6_def b5_def)
  from Expression_succeeds [of ts "heat_transfer_rule b7", OF this]
  obtain c8 where c8: "Expression ts (heat_transfer_rule b7) = Inr c8" by blast
  define b8 where "b8 = b7\<lparr>heat_transfer := c8\<rparr>"
  have "\<exists>e. heat_transfer_equation_rule b8 t = Inr e" if "t \<in> set ts" for t
    using that Expression_entry [OF c8 that]
    by (auto simp: heat_transfer_equation_rule_def getvar_def sel4 b8_def b7_def b6_def b5_def)
  from Constraint_succeeds [of ts "heat_transfer_equation_rule b8", OF this]
  obtain c9 where c9: "Constraint ts (heat_transfer_equation_rule b8) = Inr c9" by blast
  define b9 where "b9 = b8\<lparr>heat_transfer_equation := c9\<rparr>"
  have "\<exists>e. saturation_eqn_rule b9 t = Inr e" if "t \<in> set ts" for t
    using that
    by (simp add: saturation_eqn_rule_def getvar_def sel4 b9_def b8_def b7_def b6_def b5_def)
  from Constraint_succeeds [of ts "saturation_eqn_rule b9", OF this]
  obtain c10 where c10: "Constraint ts (saturation_eqn_rule b9) = Inr c10" by blast
  have "condenser_build config ts = Inr (b9\<lparr>saturation_eqn := c10\<rparr>)"
    unfolding condenser_build_def Let_def assms bind_e_Inr
    unfolding b0_def [symmetric]
    unfolding c1 bind_e_Inr b1_def [symmetric]
    unfolding c2 bind_e_Inr b2_def [symmetric]
    unfolding c3 bind_e_Inr b3_def [symmetric]
    unfolding c4 bind_e_Inr b4_def [symmetric]
    unfolding c5 bind_e_Inr b5_def [symmetric]
    unfolding c6 bind_e_Inr b6_def [symmetric]
    unfolding c7 bind_e_Inr b7_def [symmetric]
    unfolding c8 bind_e_Inr b8_def [symmetric]
    unfolding c9 bind_e_Inr b9_def [symmetric]
    unfolding c10 bind_e_Inr
    by (rule refl)
  then show ?thesis ..
qed

section \<open>Properties of the PID block and of the condenser\<close>

lemmas build_defs = pid_build_def CONFIG_def new_block_def first_def prev_def bind_e_def
  Expression_def Constraint_def rule_defs getvar_def getitem_def sum_py_def divide_num_def

lemma example_build_ok: "\<exists>b. pid_build example_config example_time = Inr b"
  by (simp add: example_config_def example_time_def build_defs Let_def)

lemma first_mem: "first ts = Inr x \<Longrightarrow> x \<in> set ts"
  by (cases ts) (auto simp: first_def)

lemma t0_mem: "pid_build config ts = Inr b \<Longrightarrow> t0 b \<in> set ts"
  by (rule first_mem) (rule pid_build_Inr(1))

lemma getvar_Inr_iff: "getvar idx mk t = Inr e \<longleftrightarrow> t \<in> set idx \<and> e = V (mk t)"
  by (auto simp: getvar_def)

lemma pterm_entry:
  assumes b: "pid_build config ts = Inr b" and t: "t \<in> set ts"
  shows "getitem (pterm b) t = Inr (Neg (V (Pv t)))"
proof -
  from Expression_entry [OF pid_build_Inr(12) [OF b] t]
  obtain e where "pterm_rule b t = Inr e" "getitem (pterm b) t = Inr e" by blast
  then show ?thesis by (auto simp: pterm_rule_def bind_e_Inr_iff getvar_Inr_iff)
qed

lemma iterm_entry:
  assumes b: "pid_build config ts = Inr b" and t: "t \<in> set ts"
  shows "getitem (iterm b) t = Inr (Sub (V (Setpoint t)) (V (Pv t)))"
proof -
  from Expression_entry [OF pid_build_Inr(14) [OF b] t]
  obtain e where e: "iterm_rule b t = Inr e" "getitem (iterm b) t = Inr e" by blast
  from Expression_entry [OF pid_build_Inr(11) [OF b] t]
  obtain e' where e': "err_rule b t = Inr e'" "getitem (err b) t = Inr e'" by blast
  from e' have "e' = Sub (V (Setpoint t)) (V (Pv t))"
    by (auto simp: err_rule_def bind_e_Inr_iff getvar_Inr_iff)
  with e e' show ?thesis by (simp add: iterm_rule_def)
qed

lemma iterm_value:
  assumes b: "pid_build config ts = Inr b" and t: "t \<in> set ts"
    and "env (Setpoint t) = Some s" "env (Pv t) = Some p"
  shows "value_at I env (iterm b) t = Some (s - p)"
  using value_at_getitem [OF iterm_entry [OF b t], of I env] assms(3,4)
  by (simp add: lift2_def)

lemma err_d_t0_entry:
  assumes b: "pid_build config ts = Inr b"
  shows "getitem (err_d b) (t0 b) = Inr (V Err_d0)"
proof -
  from Expression_entry [OF pid_build_Inr(15) [OF b] t0_mem [OF b]]
  obtain e where "err_d_rule b (t0 b) = Inr e" "getitem (err_d b) (t0 b) = Inr e" by blast
  then show ?thesis by (simp add: err_d_rule_def)
qed

text \<open>The expression that \<open>build\<close> generates for \<open>err_i0\<close>, and its value.\<close>

lemma err_i0_calc:
  assumes b: "pid_build config ts = Inr b" and calc: "calculate_initial_integral config"
  shows "err_i0 b = Some (Divide
      (Mul (V (Time_i (t0 b)))
         (Sub (Sub (V (Output 0)) (Mul (V (Gain (t0 b))) (Neg (V (Pv (t0 b))))))
            (Mul (Mul (V (Gain (t0 b))) (V (Time_d (t0 b)))) (V Err_d0))))
      (V (Gain (t0 b))))"
proof -
  from pid_build_Inr(16) [OF b] calc
  obtain e where e: "err_i0_rule b = Inr e" "err_i0 b = Some e" by auto
  from e(1) show ?thesis
    by (auto simp: e(2) err_i0_rule_def bind_e_Inr_iff getvar_Inr_iff
        pterm_entry [OF b t0_mem [OF b]] err_d_t0_entry [OF b])
qed

lemma err_i0_value_calc:
  assumes b: "pid_build config ts = Inr b" and calc: "calculate_initial_integral config"
    and env: "env (Time_i (t0 b)) = Some Ti" "env (Gain (t0 b)) = Some K"
      "env (Time_d (t0 b)) = Some Td" "env (Pv (t0 b)) = Some p" "env Err_d0 = Some d0"
      "env (Output 0) = Some out0"
    and nz: "K \<noteq> 0"
  shows "err_i0_value I env b = Some (Ti * (out0 - K * (- p) - K * Td * d0) / K)"
  by (simp add: err_i0_value_def err_i0_calc [OF b calc] env nz lift2_def divide_val_def)

lemma err_i0_backsolve_at_0:
  assumes b: "pid_build config ts = Inr b" and calc: "calculate_initial_integral config"
    and t0: "t0 b = 0"
    and env: "env (Time_i (t0 b)) = Some Ti" "env (Gain (t0 b)) = Some K"
      "env (Time_d (t0 b)) = Some Td" "env (Pv (t0 b)) = Some p" "env Err_d0 = Some d0"
      "env (Output (t0 b)) = Some out"
    and nz: "K \<noteq> 0" "Ti \<noteq> 0"
  shows "\<exists>e. err_i0_value I env b = Some e \<and> out = K * (- p + e / Ti + Td * d0)"
proof -
  from env(6) t0 have o: "env (Output 0) = Some out" by simp
  have "err_i0_value I env b = Some (Ti * (out - K * (- p) - K * Td * d0) / K)"
    by (rule err_i0_value_calc [OF b calc env(1-5) o nz(1)])
  moreover have "out = K * (- p + (Ti * (out - K * (- p) - K * Td * d0) / K) / Ti + Td * d0)"
    using nz by (simp add: field_simps)
  ultimately show ?thesis by blast
qed

text \<open>
  A counterexample to claim C9 as it is stated: \<open>build\<close> accepts a configuration with \<open>lower = 2\<close> and
  \<open>upper = 1\<close> and gives a block whose limits are \<open>l = 2\<close> and \<open>h = 1\<close>.
\<close>

theorem limits_unordered_counterexample:
  "\<not> isl (pid_build inverted_config [0, 1]) \<and>
   limits (projr (pid_build inverted_config [0, 1])) = [(''l'', 2), (''h'', 1)] \<and>
   \<not> limits_ordered (projr (pid_build inverted_config [0, 1]))"
proof -
  have "\<exists>b. pid_build inverted_config [0, 1] = Inr b"
    by (simp add: inverted_config_def build_defs Let_def)
  then obtain b where b: "pid_build inverted_config [0, 1] = Inr b" ..
  have l: "limits b = [(''l'', 2), (''h'', 1)]"
    using pid_build_Inr(9) [OF b] by (simp add: inverted_config_def CONFIG_def)
  have "\<not> limits_ordered b" by (simp add: limits_ordered_def l)
  with l show ?thesis by (simp add: b)
qed

text \<open>
  Claim C9, amended. \<open>build\<close> copies the configured \<open>lower\<close> and \<open>upper\<close> into the limits
  parameter without comparing them: a block that \<open>build\<close> returns has \<open>l \<le> h\<close> exactly
  when its configuration has \<open>lower \<le> upper\<close>, which the default configuration has.
\<close>

theorem limits_from_config:
  assumes "pid_build config ts = Inr b"
  shows "limits b = [(''l'', lower config), (''h'', upper config)] \<and>
    (limits_ordered b \<longleftrightarrow> lower config \<le> upper config) \<and>
    lower CONFIG \<le> upper CONFIG"
  using pid_build_Inr(9) [OF assms] by (simp add: limits_ordered_def CONFIG_def)

theorem limits_from_config_witness:
  "\<exists>b. pid_build example_config example_time = Inr b \<and>
     limits b = [(''l'', 0), (''h'', 1)] \<and> limits_ordered b"
proof -
  from example_build_ok obtain b where b: "pid_build example_config example_time = Inr b" ..
  have c: "lower example_config = 0" "upper example_config = 1"
    by (simp_all add: example_config_def CONFIG_def)
  from limits_from_config [OF b] have "limits b = [(''l'', 0), (''h'', 1)] \<and> limits_ordered b"
    unfolding c by simp
  with b show ?thesis by blast
qed

lemma Constraint_entry:
  assumes "Constraint idx rule = Inr tbl" "t \<in> set idx"
  shows "\<exists>c. rule t = Inr c"
proof -
  from assms(1) obtain tbl' where "Expression idx rule = Inr tbl'"
    by (auto simp: Constraint_def bind_e_Inr_iff)
  from Expression_entry [OF this assms(2)] show ?thesis by blast
qed

text \<open>
  Claim C3. In a block that \<open>build\<close> returns, the output constraint has no entry at the
  first time point \<open>t0\<close>, and its indices are the other points of the time set, in order;
  at every such point \<open>t\<close> the entry is
  \<open>output[t] == smooth_min(smooth_max(unconstrained_output[t], l, eps), h, eps)\<close>.
\<close>

theorem output_constraint_generated:
  assumes b: "pid_build config ts = Inr b"
  shows "first ts = Inr (t0 b) \<and>
    getitem (output_constraint b) (t0 b) = Inl KeyError \<and>
    map fst (output_constraint b) = filter (\<lambda>t. t \<noteq> t0 b) ts \<and>
    (\<forall>t\<in>set ts. t \<noteq> t0 b \<longrightarrow>
       (\<exists>u. getitem (unconstrained_output b) t = Inr u \<and>
          getitem (output_constraint b) t =
            Inr (Equality (V (Output t))
                   (Smooth_min (Smooth_max u (V (Limits ''l'')) (V Smooth_eps))
                      (V (Limits ''h'')) (V Smooth_eps)))))"
proof -
  note C = pid_build_Inr(19) [OF b]
  have skip: "output_constraint_rule b t = Inr Skip \<longleftrightarrow> t = t0 b" if "t \<in> set ts" for t
    using Constraint_entry [OF C that]
    by (auto simp: output_constraint_rule_def bind_e_Inr_iff)
  have 1: "getitem (output_constraint b) (t0 b) = Inl KeyError"
    using getitem_Constraint [OF C, of "t0 b"] skip [OF t0_mem [OF b]] by simp
  have 2: "map fst (output_constraint b) = filter (\<lambda>t. t \<noteq> t0 b) ts"
    unfolding map_fst_Constraint [OF C] by (rule filter_cong) (simp_all add: skip)
  have 3: "\<exists>u. getitem (unconstrained_output b) t = Inr u \<and>
          getitem (output_constraint b) t =
            Inr (Equality (V (Output t))
                   (Smooth_min (Smooth_max u (V (Limits ''l'')) (V Smooth_eps))
                      (V (Limits ''h'')) (V Smooth_eps)))"
    if t: "t \<in> set ts" "t \<noteq> t0 b" for t
  proof -
    from Constraint_entry [OF C t(1)] obtain c where c: "output_constraint_rule b t = Inr c" ..
    with t(2) obtain u where u: "getitem (unconstrained_output b) t = Inr u"
      and c': "c = Equality (V (Output t))
                   (Smooth_min (Smooth_max u (V (Limits ''l'')) (V Smooth_eps))
                      (V (Limits ''h'')) (V Smooth_eps))"
      by (auto simp: output_constraint_rule_def bind_e_Inr_iff getvar_Inr_iff)
    from getitem_Constraint [OF C, of t] t c skip [OF t(1)]
    have "getitem (output_constraint b) t = Inr c" by simp
    with u c' show ?thesis by simp
  qed
  from pid_build_Inr(1) [OF b] 1 2 3 show ?thesis by blast
qed

lemma map_prev_from:
  "distinct xs \<Longrightarrow> map (\<lambda>t. (projr (prev_from p xs t), t)) xs = zip (p # xs) xs"
proof (induction xs arbitrary: p)
  case Nil
  show ?case by simp
next
  case (Cons y ys)
  have "map (\<lambda>t. (projr (prev_from p (y # ys) t), t)) ys =
        map (\<lambda>t. (projr (prev_from y ys t), t)) ys"
    using Cons.prems by (intro map_cong) auto
  with Cons.IH [of y] Cons.prems show ?case by simp
qed

lemma map_prev:
  assumes "distinct ts"
  shows "map (\<lambda>t. (projr (prev ts t), t)) (tl ts) = consecutive_pairs ts"
proof (cases ts)
  case Nil
  then show ?thesis by (simp add: consecutive_pairs_def)
next
  case (Cons x xs)
  have "map (\<lambda>t. (projr (prev (x # xs) t), t)) xs =
        map (\<lambda>t. (projr (prev_from x xs t), t)) xs"
    using assms Cons by (intro map_cong) (auto simp: prev_def)
  with map_prev_from [of xs x] assms Cons show ?thesis
    by (simp add: consecutive_pairs_def)
qed

lemma code_sum_eq_spec:
  assumes d: "distinct ts" and f: "first ts = Inr x0"
  shows "(\<Sum>t\<leftarrow>filter (\<lambda>t. t \<le> t_end \<and> t > x0) ts.
            (it t + it (projr (prev ts t))) * (t - projr (prev ts t)) / 2) =
         trapezoid_sum_spec it ts x0 t_end"
proof -
  from f obtain xs where ts: "ts = x0 # xs" by (cases ts) (auto simp: first_def)
  let ?P = "\<lambda>t. t \<le> t_end \<and> t > x0"
  let ?g = "\<lambda>(p, c). (it c + it p) * (c - p) / 2"
  let ?pr = "\<lambda>t. (projr (prev ts t), t)"
  have "filter ?P ts = filter ?P (tl ts)" by (simp add: ts)
  then have "(\<Sum>t\<leftarrow>filter ?P ts. (it t + it (projr (prev ts t))) * (t - projr (prev ts t)) / 2)
      = sum_list (map (?g \<circ> ?pr) (filter ?P (tl ts)))"
    by (simp add: comp_def)
  also have "\<dots> = sum_list (map ?g (map ?pr (filter ?P (tl ts))))" by simp
  also have "map ?pr (filter ?P (tl ts)) = filter (\<lambda>(p, c). ?P c) (map ?pr (tl ts))"
    by (simp add: filter_map comp_def)
  also have "map ?pr (tl ts) = consecutive_pairs ts" by (rule map_prev [OF d])
  also have "filter (\<lambda>(p, c). ?P c) (consecutive_pairs ts) =
      filter (\<lambda>(t_prev, t_cur). x0 < t_cur \<and> t_cur \<le> t_end) (consecutive_pairs ts)"
    by (intro filter_cong) auto
  finally show ?thesis by (simp add: trapezoid_sum_spec_def)
qed

lemma err_i_value_t0:
  assumes b: "pid_build config ts = Inr b" and v0: "err_i0_value I env b = Some v0"
  shows "value_at I env (err_i b) (t0 b) = Some v0"
proof -
  from Expression_entry [OF pid_build_Inr(17) [OF b] t0_mem [OF b]]
  obtain e where e: "err_i_rule b (t0 b) = Inr e" and g: "getitem (err_i b) (t0 b) = Inr e"
    by blast
  have "filter (\<lambda>t. t \<le> t0 b \<and> t0 b < t) (time_set b) = []"
    by (simp add: filter_empty_conv)
  with e obtain e0 where "err_i0 b = Some e0" "e = Add e0 (sum_py [])"
    by (auto simp: err_i_rule_def getattr_err_i0_def bind_e_Inr_iff split: option.splits)
  with v0 have "eval_expr I env e = Some v0"
    by (simp add: err_i0_value_def sum_py_def lift2_def)
  with value_at_getitem [OF g] show ?thesis by simp
qed

text \<open>
  Claim C4. In a block that \<open>build\<close> returns over a time set, under an assignment that
  gives \<open>iterm\<close> and \<open>err_i0\<close> values, \<open>err_i[t_end]\<close> has the value of \<open>err_i0\<close> plus the
  sum over the consecutive pairs \<open>(prev t, t)\<close> with \<open>t0 < t \<le> t_end\<close> of
  \<open>(iterm[t] + iterm[prev t]) * (t - prev t) / 2\<close>; at \<open>t_end = t0\<close> the sum is empty and
  \<open>err_i[t0]\<close> has the value of \<open>err_i0\<close>.
\<close>

theorem err_i_trapezoid:
  assumes b: "pid_build config ts = Inr b"
    and d: "distinct ts"
    and t_end: "t_end \<in> set ts"
    and it: "\<forall>t\<in>set ts. value_at I env (iterm b) t = Some (it t)"
    and v0: "err_i0_value I env b = Some v0"
  shows "value_at I env (err_i b) t_end = Some (v0 + trapezoid_sum_spec it ts (t0 b) t_end) \<and>
    trapezoid_sum_spec it ts (t0 b) (t0 b) = 0 \<and>
    value_at I env (err_i b) (t0 b) = Some v0"
proof -
  have 1: "value_at I env (err_i b) t_end = Some (v0 + trapezoid_sum_spec it ts (t0 b) t_end)"
    using err_i_value_code [OF b it v0 t_end]
    by (simp add: code_sum_eq_spec [OF d pid_build_Inr(1) [OF b]])
  have "filter (\<lambda>(t_prev, t_cur). t0 b < t_cur \<and> t_cur \<le> t0 b) (consecutive_pairs ts) = []"
    by (auto simp: filter_empty_conv)
  then have 2: "trapezoid_sum_spec it ts (t0 b) (t0 b) = 0"
    by (simp add: trapezoid_sum_spec_def)
  from 1 2 err_i_value_t0 [OF b v0] show ?thesis by blast
qed

lemma sorted_prev_from:
  assumes "sorted_wrt (<) (p # xs)" "t \<in> set xs"
  shows "\<exists>q. prev_from p xs t = Inr q \<and> q < t \<and> q \<in> set (p # xs) \<and>
           (\<forall>x\<in>set (p # xs). x \<le> q \<or> t \<le> x)"
  using assms
proof (induction xs arbitrary: p)
  case Nil
  then show ?case by simp
next
  case (Cons y ys)
  show ?case
  proof (cases "t = y")
    case True
    with Cons.prems show ?thesis by (auto intro: less_imp_le)
  next
    case False
    with Cons.prems have t: "t \<in> set ys" and s: "sorted_wrt (<) (y # ys)" by auto
    from Cons.IH [OF s t] obtain q where q: "prev_from y ys t = Inr q" "q < t"
      "q \<in> set (y # ys)" "\<forall>x\<in>set (y # ys). x \<le> q \<or> t \<le> x" by blast
    from Cons.prems(1) q(3) have "p \<le> q" by (auto intro: less_imp_le)
    with q False show ?thesis by auto
  qed
qed

lemma sorted_prev:
  assumes s: "sorted_wrt (<) ts" and f: "first ts = Inr x0" and t: "t \<in> set ts" "x0 < t"
  shows "\<exists>q. prev ts t = Inr q \<and> q < t \<and> q \<in> set ts \<and> (\<forall>x\<in>set ts. x \<le> q \<or> t \<le> x)"
proof -
  from f obtain xs where ts: "ts = x0 # xs" by (cases ts) (auto simp: first_def)
  with t have "t \<in> set xs" "t \<noteq> x0" by auto
  with sorted_prev_from [of x0 xs t] s ts show ?thesis by (simp add: prev_def)
qed

lemma filter_step:
  assumes s: "sorted_wrt (<) (ts :: real list)" and t: "t \<in> set ts" "x0 < t"
    and q: "q < t" "\<forall>x\<in>set ts. x \<le> q \<or> t \<le> x"
  shows "filter (\<lambda>x. x \<le> t \<and> x0 < x) ts = filter (\<lambda>x. x \<le> q \<and> x0 < x) ts @ [t]"
proof (rule sorted_distinct_set_unique)
  from s have sd: "sorted ts" "distinct ts" by (simp_all add: strict_sorted_iff)
  show "sorted (filter (\<lambda>x. x \<le> t \<and> x0 < x) ts)" using sd by (simp add: sorted_wrt_filter)
  show "distinct (filter (\<lambda>x. x \<le> t \<and> x0 < x) ts)" using sd by simp
  show "sorted (filter (\<lambda>x. x \<le> q \<and> x0 < x) ts @ [t])"
    using sd q(1) by (auto simp: sorted_append sorted_wrt_filter)
  show "distinct (filter (\<lambda>x. x \<le> q \<and> x0 < x) ts @ [t])"
    using sd q(1) by auto
  show "set (filter (\<lambda>x. x \<le> t \<and> x0 < x) ts) = set (filter (\<lambda>x. x \<le> q \<and> x0 < x) ts @ [t])"
    using t q by auto
qed

text \<open>
  Claim C5. Over a strictly increasing time set, for every point \<open>t\<close> after the first,
  \<open>err_i[t] - err_i[prev t] = (iterm[t] + iterm[prev t]) * (t - prev t) / 2\<close>.
\<close>

theorem err_i_recurrence:
  assumes b: "pid_build config ts = Inr b"
    and s: "sorted_wrt (<) ts"
    and t: "t \<in> set ts" "t0 b < t"
    and it: "\<forall>t\<in>set ts. value_at I env (iterm b) t = Some (it t)"
    and v0: "err_i0_value I env b = Some v0"
  shows "\<exists>tp a a'. prev ts t = Inr tp \<and>
    value_at I env (err_i b) t = Some a \<and> value_at I env (err_i b) tp = Some a' \<and>
    a - a' = (it t + it tp) * (t - tp) / 2"
proof -
  from sorted_prev [OF s pid_build_Inr(1) [OF b] t]
  obtain q where q: "prev ts t = Inr q" "q < t" "q \<in> set ts" "\<forall>x\<in>set ts. x \<le> q \<or> t \<le> x"
    by blast
  let ?g = "\<lambda>t. (it t + it (projr (prev ts t))) * (t - projr (prev ts t)) / 2"
  let ?S = "\<lambda>te. sum_list (map ?g (filter (\<lambda>x. x \<le> te \<and> t0 b < x) ts))"
  have a: "value_at I env (err_i b) t = Some (v0 + ?S t)"
    by (rule err_i_value_code [OF b it v0 t(1)])
  have a': "value_at I env (err_i b) q = Some (v0 + ?S q)"
    by (rule err_i_value_code [OF b it v0 q(3)])
  have "?S t = ?S q + ?g t"
    by (simp add: filter_step [OF s t q(2,4)])
  then have "(v0 + ?S t) - (v0 + ?S q) = (it t + it q) * (t - q) / 2"
    by (simp add: q(1))
  with q(1) a a' show ?thesis by blast
qed

lemma example_t0:
  assumes "pid_build example_config example_time = Inr b"
  shows "t0 b = 0"
  using pid_build_Inr(1) [OF assms] by (simp add: first_def example_time_def)

lemma example_calc: "calculate_initial_integral example_config"
  by (simp add: example_config_def CONFIG_def)

lemma example_iterm_value:
  assumes b: "pid_build example_config example_time = Inr b" and t: "t \<in> set example_time"
  shows "value_at example_intrinsics example_env (iterm b) t = Some (example_iterm t)"
  unfolding example_iterm_def
  by (rule iterm_value [OF b t]) (simp_all add: example_env_def)

lemma example_err_i0_value:
  assumes b: "pid_build example_config example_time = Inr b"
  shows "err_i0_value example_intrinsics example_env b = Some (15 / 2)"
proof -
  have "err_i0_value example_intrinsics example_env b =
      Some (10 * (1 / 2 - 2 * (- (1 / 2)) - 2 * 1 * 0) / 2)"
    by (rule err_i0_value_calc [OF b example_calc]) (simp_all add: example_env_def)
  then show ?thesis by simp
qed

theorem output_constraint_generated_witness:
  "\<exists>b u. pid_build example_config example_time = Inr b \<and> t0 b = 0 \<and>
     getitem (output_constraint b) 0 = Inl KeyError \<and>
     map fst (output_constraint b) = [1, 3] \<and>
     getitem (unconstrained_output b) 1 = Inr u \<and>
     getitem (output_constraint b) 1 =
       Inr (Equality (V (Output 1))
              (Smooth_min (Smooth_max u (V (Limits ''l'')) (V Smooth_eps))
                 (V (Limits ''h'')) (V Smooth_eps)))"
proof -
  from example_build_ok obtain b where b: "pid_build example_config example_time = Inr b" ..
  note z = example_t0 [OF b]
  note th = output_constraint_generated [OF b, unfolded z]
  from th have 1: "getitem (output_constraint b) 0 = Inl KeyError" by blast
  from th have "map fst (output_constraint b) = filter (\<lambda>t. t \<noteq> 0) example_time" by blast
  then have 2: "map fst (output_constraint b) = [1, 3]" by (simp add: example_time_def)
  have m: "(1::real) \<in> set example_time" "(1::real) \<noteq> 0" by (simp_all add: example_time_def)
  from th m obtain u where u: "getitem (unconstrained_output b) 1 = Inr u"
     "getitem (output_constraint b) 1 =
       Inr (Equality (V (Output 1))
              (Smooth_min (Smooth_max u (V (Limits ''l'')) (V Smooth_eps))
                 (V (Limits ''h'')) (V Smooth_eps)))"
    by blast
  show ?thesis
    by (rule exI [of _ b], rule exI [of _ u]) (intro conjI b z 1 2 u)
qed

lemma example_sum: "trapezoid_sum_spec example_iterm example_time 0 3 = 1 / 4"
  by (simp add: trapezoid_sum_spec_def consecutive_pairs_def example_time_def example_iterm_def)

theorem err_i_trapezoid_witness:
  "\<exists>b. pid_build example_config example_time = Inr b \<and>
     value_at example_intrinsics example_env (err_i b) 3 = Some (31 / 4) \<and>
     value_at example_intrinsics example_env (err_i b) 0 = Some (15 / 2)"
proof -
  from example_build_ok obtain b where b: "pid_build example_config example_time = Inr b" ..
  have d: "distinct example_time" and m: "3 \<in> set example_time"
    by (simp_all add: example_time_def)
  have it: "\<forall>t\<in>set example_time.
      value_at example_intrinsics example_env (iterm b) t = Some (example_iterm t)"
    using example_iterm_value [OF b] by blast
  note th = err_i_trapezoid [OF b d m it example_err_i0_value [OF b], unfolded example_t0 [OF b]]
  from th have "value_at example_intrinsics example_env (err_i b) 3 = Some (31 / 4)"
    by (simp add: example_sum)
  moreover from th have "value_at example_intrinsics example_env (err_i b) 0 = Some (15 / 2)"
    by blast
  ultimately show ?thesis by (intro exI [of _ b] conjI b)
qed

theorem err_i_recurrence_witness:
  "\<exists>b a a'. pid_build example_config example_time = Inr b \<and>
     prev example_time 3 = Inr 1 \<and>
     value_at example_intrinsics example_env (err_i b) 3 = Some a \<and>
     value_at example_intrinsics example_env (err_i b) 1 = Some a' \<and>
     a - a' = 1 / 5"
proof -
  from example_build_ok obtain b where b: "pid_build example_config example_time = Inr b" ..
  have s: "sorted_wrt (<) example_time" and m: "3 \<in> set example_time"
    by (simp_all add: example_time_def)
  have l: "t0 b < 3" by (simp add: example_t0 [OF b])
  have it: "\<forall>t\<in>set example_time.
      value_at example_intrinsics example_env (iterm b) t = Some (example_iterm t)"
    using example_iterm_value [OF b] by blast
  have p: "prev example_time 3 = Inr 1" by (simp add: prev_def example_time_def)
  from err_i_recurrence [OF b s m l it example_err_i0_value [OF b]]
  obtain tp a a' where r: "prev example_time 3 = Inr tp"
    "value_at example_intrinsics example_env (err_i b) 3 = Some a"
    "value_at example_intrinsics example_env (err_i b) tp = Some a'"
    "a - a' = (example_iterm 3 + example_iterm tp) * (3 - tp) / 2"
    by blast
  from r(1) p have tp: "tp = 1" by simp
  from r(4) have "a - a' = 1 / 5" by (simp add: tp example_iterm_def)
  then show ?thesis
    by (intro exI [of _ b] exI [of _ a] exI [of _ a'] conjI b p r(2) r(3) [unfolded tp])
qed

lemma unconstrained_output_entry:
  assumes b: "pid_build config ts = Inr b" and t: "t \<in> set ts"
  shows "\<exists>ei ed. getitem (err_i b) t = Inr ei \<and> getitem (err_d b) t = Inr ed \<and>
    getitem (unconstrained_output b) t =
      Inr (Mul (V (Gain t))
             (Add (Add (Neg (V (Pv t))) (Mul (Divide (Num 1) (V (Time_i t))) ei))
                (Mul (V (Time_d t)) ed)))"
proof -
  from Expression_entry [OF pid_build_Inr(18) [OF b] t]
  obtain e where e: "unconstrained_output_rule b t = Inr e"
    "getitem (unconstrained_output b) t = Inr e" by blast
  from e(1) show ?thesis
    by (auto simp: e(2) unconstrained_output_rule_def bind_e_Inr_iff getvar_Inr_iff
        pterm_entry [OF b t])
qed

lemma unconstrained_output_value:
  assumes b: "pid_build config ts = Inr b" and t: "t \<in> set ts"
    and env: "env (Gain t) = Some K" "env (Time_i t) = Some Ti" "env (Time_d t) = Some Td"
      "env (Pv t) = Some p"
    and vi: "value_at I env (err_i b) t = Some ei" and vd: "value_at I env (err_d b) t = Some ed"
    and nz: "Ti \<noteq> 0"
  shows "value_at I env (unconstrained_output b) t = Some (K * (- p + 1 / Ti * ei + Td * ed))"
proof -
  from unconstrained_output_entry [OF b t] obtain xi xd where
    xi: "getitem (err_i b) t = Inr xi" and xd: "getitem (err_d b) t = Inr xd"
    and u: "getitem (unconstrained_output b) t =
      Inr (Mul (V (Gain t))
             (Add (Add (Neg (V (Pv t))) (Mul (Divide (Num 1) (V (Time_i t))) xi))
                (Mul (V (Time_d t)) xd)))"
    by blast
  from vi value_at_getitem [OF xi, of I env] have 1: "eval_expr I env xi = Some ei" by simp
  from vd value_at_getitem [OF xd, of I env] have 2: "eval_expr I env xd = Some ed" by simp
  show ?thesis
    unfolding value_at_getitem [OF u]
    by (simp add: env 1 2 nz lift2_def divide_val_def)
qed

lemma err_d_value_t0:
  assumes b: "pid_build config ts = Inr b"
  shows "value_at I env (err_d b) (t0 b) = env Err_d0"
  unfolding value_at_getitem [OF err_d_t0_entry [OF b]] by simp

text \<open>
  When the time set starts at \<open>0\<close>, the output law at the first time point gives back the
  output value there.
\<close>

lemma zero_jump_when_time_starts_at_0:
  assumes b: "pid_build config ts = Inr b" and calc: "calculate_initial_integral config"
    and z: "t0 b = 0"
    and env: "env (Time_i (t0 b)) = Some Ti" "env (Gain (t0 b)) = Some K"
      "env (Time_d (t0 b)) = Some Td" "env (Pv (t0 b)) = Some p" "env Err_d0 = Some d0"
      "env (Output (t0 b)) = Some out"
    and nz: "K \<noteq> 0" "Ti \<noteq> 0"
  shows "value_at I env (unconstrained_output b) (t0 b) = Some out"
proof -
  from err_i0_backsolve_at_0 [OF b calc z env nz, of I]
  obtain e where e: "err_i0_value I env b = Some e" "out = K * (- p + e / Ti + Td * d0)"
    by blast
  have "value_at I env (unconstrained_output b) (t0 b) = Some (K * (- p + 1 / Ti * e + Td * d0))"
    by (rule unconstrained_output_value [OF b t0_mem [OF b] env(2,1,3,4)
          err_i_value_t0 [OF b e(1)] _ nz(2)])
       (simp add: err_d_value_t0 [OF b] env(5))
  with e(2) show ?thesis by simp
qed

lemma late_build: "pid_build late_config [10, 20] = Inl KeyError"
  by (simp add: late_config_def build_defs Let_def)

lemma early_build_ok: "\<exists>b. pid_build early_config [-1, 0] = Inr b"
  by (simp add: early_config_def build_defs Let_def)

text \<open>
  Claim C1 fails on the code: the expression for \<open>err_i0\<close> reads the output at the index
  \<open>0\<close>, not at the first time point. Over the time set \<open>{10, 20}\<close> the output has no
  index \<open>0\<close> and \<open>build\<close> raises \<open>KeyError\<close>. Over \<open>{-1, 0}\<close>, with the output \<open>1\<close> at the
  first point and \<open>2\<close> at \<open>0\<close>, \<open>err_i0\<close> is solved for the value \<open>2\<close>, and the output law
  at the first point gives \<open>2\<close> where the output is \<open>1\<close>.
\<close>

theorem err_i0_uses_output_at_index_0:
  "pid_build late_config [10, 20] = Inl KeyError \<and>
   \<not> isl (pid_build early_config [-1, 0]) \<and>
   t0 (projr (pid_build early_config [-1, 0])) = -1 \<and>
   early_env (Output (-1)) = Some 1 \<and>
   err_i0_value example_intrinsics early_env (projr (pid_build early_config [-1, 0])) = Some 2 \<and>
   value_at example_intrinsics early_env
     (unconstrained_output (projr (pid_build early_config [-1, 0]))) (-1) = Some 2"
proof -
  from early_build_ok obtain b where b: "pid_build early_config [-1, 0] = Inr b" ..
  have z: "t0 b = -1"
    using pid_build_Inr(1) [OF b] by (simp add: first_def)
  have calc: "calculate_initial_integral early_config"
    by (simp add: early_config_def CONFIG_def)
  have o: "early_env (Output (-1)) = Some 1" by (simp add: early_env_def)
  have "err_i0_value example_intrinsics early_env b = Some (1 * (2 - 1 * (- 0) - 1 * 1 * 0) / 1)"
    by (rule err_i0_value_calc [OF b calc]) (simp_all add: early_env_def)
  then have e: "err_i0_value example_intrinsics early_env b = Some 2" by simp
  have "value_at example_intrinsics early_env (unconstrained_output b) (t0 b) =
      Some (1 * (- 0 + 1 / 1 * 2 + 1 * 0))"
    by (rule unconstrained_output_value [OF b t0_mem [OF b] _ _ _ _ err_i_value_t0 [OF b e]])
       (simp_all add: early_env_def err_d_value_t0 [OF b])
  then have u: "value_at example_intrinsics early_env (unconstrained_output b) (-1) = Some 2"
    by (simp add: z)
  show ?thesis
    unfolding b sum.sel by (intro conjI late_build z o e u) simp
qed

lemmas hx_rule_defs = unit_heat_balance_rule_def delta_temperature_in_rule_def
  delta_temperature_out_rule_def delta_temperature_ntu_rule_def mcp_min_rule_def ntu_rule_def
  effectiveness_rule_def heat_transfer_rule_def heat_transfer_equation_rule_def
  saturation_eqn_rule_def

lemma condenser_build_Inr:
  assumes "condenser_build config ts = Inr b"
  shows "process_config config = Inr ()"
    and "time b = ts"
    and "overall_heat_transfer_coefficient b = ts"
    and "Constraint ts (unit_heat_balance_rule b) = Inr (unit_heat_balance b)"
    and "Expression ts (mcp_min_rule b) = Inr (mcp_min b)"
    and "Expression ts (ntu_rule b) = Inr (ntu b)"
    and "Expression ts (effectiveness_rule b) = Inr (effectiveness b)"
  using assms
  unfolding condenser_build_def new_condenser_def Let_def
  by (auto simp: bind_e_Inr_iff hx_rule_defs cong: if_cong)

lemma example_condenser_ok: "\<exists>b. condenser_build example_hx_config [0, 1] = Inr b"
  by (simp add: example_hx_config_def condenser_build_def new_condenser_def process_config_def
      hx_rule_defs Let_def Expression_def Constraint_def getvar_def getitem_def)

lemma unit_heat_balance_rule_eq:
  assumes b: "condenser_build config ts = Inr b" and t: "t \<in> set ts"
  shows "unit_heat_balance_rule b t =
      Inr (Equality (Num 0) (Add (V (Heat Side_1 t)) (V (Heat Side_2 t))))"
  using t by (simp add: unit_heat_balance_rule_def getvar_def condenser_build_Inr(2) [OF b])

text \<open>
  Claim C7. Whenever the configuration is accepted, \<open>build\<close> returns a block, and for
  every point of the time set it has generated the constraint
  \<open>0 == side_1.heat[t] + side_2.heat[t]\<close>, one constraint for each time point and none
  else; under an assignment of the two heats the constraint holds exactly when their
  sum is zero.
\<close>

theorem unit_heat_balance_generated:
  assumes cfg: "process_config config = Inr ()"
  shows "\<exists>b. condenser_build config ts = Inr b \<and>
    map fst (unit_heat_balance b) = ts \<and>
    (\<forall>t\<in>set ts.
       getitem (unit_heat_balance b) t =
         Inr (Equality (Num 0) (Add (V (Heat Side_1 t)) (V (Heat Side_2 t))))) \<and>
    (satisfied I env (Equality (Num 0) (Add (V (Heat Side_1 t')) (V (Heat Side_2 t')))) \<longleftrightarrow>
       (\<exists>h1 h2. env (Heat Side_1 t') = Some h1 \<and> env (Heat Side_2 t') = Some h2 \<and>
          h1 + h2 = 0))"
proof -
  from condenser_build_succeeds [OF cfg] obtain b where b: "condenser_build config ts = Inr b" ..
  note C = condenser_build_Inr(4) [OF b]
  note r = unit_heat_balance_rule_eq [OF b]
  have 1: "map fst (unit_heat_balance b) = ts"
    unfolding map_fst_Constraint [OF C] by (simp add: filter_id_conv r)
  have 2: "getitem (unit_heat_balance b) t =
         Inr (Equality (Num 0) (Add (V (Heat Side_1 t)) (V (Heat Side_2 t))))"
    if "t \<in> set ts" for t
    using getitem_Constraint [OF C, of t] that by (simp add: r)
  have 3: "satisfied I env (Equality (Num 0) (Add (V (Heat Side_1 t')) (V (Heat Side_2 t')))) \<longleftrightarrow>
       (\<exists>h1 h2. env (Heat Side_1 t') = Some h1 \<and> env (Heat Side_2 t') = Some h2 \<and>
          h1 + h2 = 0)"
    by (auto simp: lift2_def split: option.splits)
  from b 1 2 3 show ?thesis by blast
qed

theorem unit_heat_balance_generated_witness:
  "\<exists>b. condenser_build example_hx_config [0, 1] = Inr b \<and>
     map fst (unit_heat_balance b) = [0, 1] \<and>
     getitem (unit_heat_balance b) 1 =
       Inr (Equality (Num 0) (Add (V (Heat Side_1 1)) (V (Heat Side_2 1)))) \<and>
     satisfied example_intrinsics example_hx_env
       (Equality (Num 0) (Add (V (Heat Side_1 1)) (V (Heat Side_2 1))))"
proof -
  have cfg: "process_config example_hx_config = Inr ()"
    by (simp add: process_config_def example_hx_config_def)
  from unit_heat_balance_generated [OF cfg, where ts = "[0, 1]" and I = example_intrinsics
      and env = example_hx_env and t' = 1]
  obtain b where H: "condenser_build example_hx_config [0, 1] = Inr b \<and>
    map fst (unit_heat_balance b) = [0, 1] \<and>
    (\<forall>t\<in>set [0, 1].
       getitem (unit_heat_balance b) t =
         Inr (Equality (Num 0) (Add (V (Heat Side_1 t)) (V (Heat Side_2 t))))) \<and>
    (satisfied example_intrinsics example_hx_env
        (Equality (Num 0) (Add (V (Heat Side_1 1)) (V (Heat Side_2 1)))) \<longleftrightarrow>
       (\<exists>h1 h2. example_hx_env (Heat Side_1 1) = Some h1 \<and>
          example_hx_env (Heat Side_2 1) = Some h2 \<and> h1 + h2 = 0))" ..
  note b = conjunct1 [OF H]
  note 1 = conjunct1 [OF conjunct2 [OF H]]
  note all = conjunct1 [OF conjunct2 [OF conjunct2 [OF H]]]
  note sat = conjunct2 [OF conjunct2 [OF conjunct2 [OF H]]]
  have m: "(1::real) \<in> set [0, 1]" by simp
  note 2 = bspec [OF all m]
  have "example_hx_env (Heat Side_1 1) = Some (- 3650) \<and>
      example_hx_env (Heat Side_2 1) = Some 3650 \<and> - 3650 + 3650 = (0::real)"
    by (simp add: example_hx_env_def)
  then have "\<exists>h1 h2. example_hx_env (Heat Side_1 1) = Some h1 \<and>
          example_hx_env (Heat Side_2 1) = Some h2 \<and> h1 + h2 = 0"
    by (intro exI)
  then have 3: "satisfied example_intrinsics example_hx_env
       (Equality (Num 0) (Add (V (Heat Side_1 1)) (V (Heat Side_2 1))))"
    by (rule iffD2 [OF sat])
  show ?thesis by (intro exI [of _ b] conjI b 1 2 3)
qed

lemma mcp_min_entry:
  assumes b: "condenser_build config ts = Inr b" and t: "t \<in> set ts"
  shows "getitem (mcp_min b) t =
    Inr (Mul (V (Flow_mol_in Side_2 t)) (V (Cp_mol_phase_liq_in Side_2 t)))"
proof -
  from Expression_entry [OF condenser_build_Inr(5) [OF b] t]
  obtain m where "mcp_min_rule b t = Inr m" "getitem (mcp_min b) t = Inr m" by blast
  then show ?thesis by (auto simp: mcp_min_rule_def bind_e_Inr_iff getvar_Inr_iff)
qed

lemma ntu_entry:
  assumes b: "condenser_build config ts = Inr b" and t: "t \<in> set ts"
    and m: "getitem (mcp_min b) t = Inr m"
  shows "getitem (ntu b) t =
    Inr (Divide (Mul (V (Overall_heat_transfer_coefficient t)) (V Area)) m)"
proof -
  from Expression_entry [OF condenser_build_Inr(6) [OF b] t]
  obtain n where n: "ntu_rule b t = Inr n" "getitem (ntu b) t = Inr n" by blast
  from n(1) have "n = Divide (Mul (V (Overall_heat_transfer_coefficient t)) (V Area)) m"
    by (auto simp: ntu_rule_def bind_e_Inr_iff getvar_Inr_iff m)
  with n(2) show ?thesis by simp
qed

lemma effectiveness_entry:
  assumes b: "condenser_build config ts = Inr b" and t: "t \<in> set ts"
    and n: "getitem (ntu b) t = Inr n"
  shows "getitem (effectiveness b) t = Inr (Sub (Num 1) (Exp (Neg n)))"
proof -
  from Expression_entry [OF condenser_build_Inr(7) [OF b] t]
  obtain e where e: "effectiveness_rule b t = Inr e" "getitem (effectiveness b) t = Inr e"
    by blast
  from e(1) have "e = Sub (Num 1) (Exp (Neg n))"
    by (auto simp: effectiveness_rule_def bind_e_Inr_iff n)
  with e(2) show ?thesis by simp
qed

lemma ntu_value:
  assumes b: "condenser_build config ts = Inr b" and t: "t \<in> set ts"
    and env: "env (Overall_heat_transfer_coefficient t) = Some U" "env Area = Some A"
      "env (Flow_mol_in Side_2 t) = Some F" "env (Cp_mol_phase_liq_in Side_2 t) = Some cp"
    and nz: "F * cp \<noteq> 0"
  shows "value_at I env (ntu b) t = Some (U * A / (F * cp))"
  using value_at_getitem [OF ntu_entry [OF b t mcp_min_entry [OF b t]], of I env] env nz
  by (simp add: lift2_def divide_val_def)

text \<open>
  Claim C6. At every point of the time set the effectiveness is the expression
  \<open>1 - exp(-ntu[t])\<close> with \<open>ntu[t] = U[t] * area / mcp_min[t]\<close>; whenever \<open>ntu[t]\<close> has a
  value, the effectiveness has the value \<open>1 - exp (- ntu[t])\<close>, which lies strictly
  between \<open>0\<close> and \<open>1\<close> when \<open>ntu[t]\<close> is positive. Values are real numbers.
\<close>

theorem effectiveness_in_unit_interval:
  assumes cfg: "process_config config = Inr ()" and t: "t \<in> set ts"
  shows "\<exists>b m. condenser_build config ts = Inr b \<and>
    getitem (mcp_min b) t = Inr m \<and>
    getitem (ntu b) t = Inr (Divide (Mul (V (Overall_heat_transfer_coefficient t)) (V Area)) m) \<and>
    getitem (effectiveness b) t =
      Inr (Sub (Num 1)
             (Exp (Neg (Divide (Mul (V (Overall_heat_transfer_coefficient t)) (V Area)) m)))) \<and>
    (value_at I env (ntu b) t = Some x \<longrightarrow>
       value_at I env (effectiveness b) t = Some (1 - exp (- x)) \<and>
       (0 < x \<longrightarrow> 0 < 1 - exp (- x) \<and> 1 - exp (- x) < 1))"
proof -
  from condenser_build_succeeds [OF cfg] obtain b where b: "condenser_build config ts = Inr b" ..
  note m = mcp_min_entry [OF b t]
  note n = ntu_entry [OF b t m]
  note e = effectiveness_entry [OF b t n]
  have v: "value_at I env (effectiveness b) t = Some (1 - exp (- x)) \<and>
       (0 < x \<longrightarrow> 0 < 1 - exp (- x) \<and> 1 - exp (- x) < 1)"
    if "value_at I env (ntu b) t = Some x"
  proof -
    from that have "eval_expr I env
        (Divide (Mul (V (Overall_heat_transfer_coefficient t)) (V Area))
           (Mul (V (Flow_mol_in Side_2 t)) (V (Cp_mol_phase_liq_in Side_2 t)))) = Some x"
      unfolding value_at_getitem [OF n] .
    then have "value_at I env (effectiveness b) t = Some (1 - exp (- x))"
      unfolding value_at_getitem [OF e] by (simp add: lift2_def)
    then show ?thesis by simp
  qed
  from b m n e v show ?thesis by blast
qed

theorem effectiveness_in_unit_interval_witness:
  "\<exists>b. condenser_build example_hx_config [0, 1] = Inr b \<and>
     value_at example_intrinsics example_hx_env (ntu b) 1 = Some 2000 \<and>
     value_at example_intrinsics example_hx_env (effectiveness b) 1 = Some (1 - exp (- 2000)) \<and>
     0 < 1 - exp (- 2000 :: real) \<and> 1 - exp (- 2000 :: real) < 1"
proof -
  have cfg: "process_config example_hx_config = Inr ()"
    by (simp add: process_config_def example_hx_config_def)
  have m: "(1::real) \<in> set [0, 1]" by simp
  from effectiveness_in_unit_interval [OF cfg m, where I = example_intrinsics
      and env = example_hx_env and x = 2000]
  obtain b where "\<exists>m. condenser_build example_hx_config [0, 1] = Inr b \<and>
    getitem (mcp_min b) 1 = Inr m \<and>
    getitem (ntu b) 1 = Inr (Divide (Mul (V (Overall_heat_transfer_coefficient 1)) (V Area)) m) \<and>
    getitem (effectiveness b) 1 =
      Inr (Sub (Num 1)
             (Exp (Neg (Divide (Mul (V (Overall_heat_transfer_coefficient 1)) (V Area)) m)))) \<and>
    (value_at example_intrinsics example_hx_env (ntu b) 1 = Some 2000 \<longrightarrow>
       value_at example_intrinsics example_hx_env (effectiveness b) 1 = Some (1 - exp (- 2000)) \<and>
       (0 < (2000::real) \<longrightarrow> 0 < 1 - exp (- 2000 :: real) \<and> 1 - exp (- 2000 :: real) < 1))" ..
  then obtain m' where H: "condenser_build example_hx_config [0, 1] = Inr b \<and>
    getitem (mcp_min b) 1 = Inr m' \<and>
    getitem (ntu b) 1 = Inr (Divide (Mul (V (Overall_heat_transfer_coefficient 1)) (V Area)) m') \<and>
    getitem (effectiveness b) 1 =
      Inr (Sub (Num 1)
             (Exp (Neg (Divide (Mul (V (Overall_heat_transfer_coefficient 1)) (V Area)) m')))) \<and>
    (value_at example_intrinsics example_hx_env (ntu b) 1 = Some 2000 \<longrightarrow>
       value_at example_intrinsics example_hx_env (effectiveness b) 1 = Some (1 - exp (- 2000)) \<and>
       (0 < (2000::real) \<longrightarrow> 0 < 1 - exp (- 2000 :: real) \<and> 1 - exp (- 2000 :: real) < 1))" ..
  note b = conjunct1 [OF H]
  note imp = conjunct2 [OF conjunct2 [OF conjunct2 [OF conjunct2 [OF H]]]]
  have "value_at example_intrinsics example_hx_env (ntu b) 1 = Some (100 * 1000 / (50 * 1))"
    by (rule ntu_value [OF b m]) (simp_all add: example_hx_env_def)
  then have n: "value_at example_intrinsics example_hx_env (ntu b) 1 = Some 2000" by simp
  note c = mp [OF imp n]
  have pos: "0 < (2000::real)" by simp
  note e = conjunct1 [OF c]
  note bounds = mp [OF conjunct2 [OF c] pos]
  show ?thesis
    by (intro exI [of _ b] conjI b n e conjunct1 [OF bounds] conjunct2 [OF bounds])
qed

section \<open>Properties of \<open>initialize\<close>\<close>

lemmas action_defs = bind_a_def raise_def return_def call_def call_solve_def snapshot_def
  restore_def saturation_eqn_activate_def properties_in_0_unfix_def

text \<open>
  Claim C8. An \<open>unfix\<close> argument other than \<open>hot_flow\<close>, \<open>cold_flow\<close> and \<open>pressure\<close> makes
  \<open>initialize\<close> raise at once: whatever the external calls are, the block is left as it
  was and the trace is left as it was, so no snapshot was taken and neither a control
  volume nor the solver was called.
\<close>

theorem initialize_invalid:
  "unfix \<notin> {''hot_flow'', ''cold_flow'', ''pressure''} \<Longrightarrow>
     initialize ext unfix (blk, tr) = (Inl Exception, blk, tr)"
  by (simp add: initialize_def raise_def)

theorem initialize_invalid_witness:
  "''flowrate'' \<notin> {''hot_flow'', ''cold_flow'', ''pressure''} \<and>
   initialize example_ext ''flowrate'' (example_blk, []) = (Inl Exception, example_blk, [])"
  using initialize_invalid [of "''flowrate''" example_ext example_blk "[]"] by simp

lemma bind_a_Inr_iff:
  "bind_a m f w = (Inr y, w'') \<longleftrightarrow> (\<exists>x w'. m w = (Inr x, w') \<and> f x w' = (Inr y, w''))"
  by (auto simp: bind_a_def split: prod.splits sum.splits)

lemma call_Inr_iff:
  "call ev f (blk, tr) = (Inr x, blk', tr') \<longleftrightarrow> f blk = (Inr x, blk') \<and> tr' = tr @ [ev]"
  by (auto simp: call_def split: prod.splits)

lemma call_solve_Inr_iff:
  "call_solve ext (blk, tr) = (Inr x, blk', tr') \<longleftrightarrow>
     solve ext blk = (Inr x, blk') \<and> tr' = tr @ [Ev_solve blk]"
  by (simp add: call_solve_def call_Inr_iff)

lemma snapshot_iff:
  "snapshot (blk, tr) = (Inr sd, blk', tr') \<longleftrightarrow>
     sd = to_json blk \<and> blk' = blk \<and> tr' = tr @ [Ev_to_json]"
  by (auto simp: snapshot_def)

lemma restore_iff:
  "restore sd (blk, tr) = (Inr u, blk', tr') \<longleftrightarrow>
     blk' = from_json blk sd \<and> tr' = tr @ [Ev_from_json]"
  by (auto simp: restore_def)

lemma saturation_eqn_activate_iff:
  "saturation_eqn_activate (blk, tr) = (Inr u, blk', tr') \<longleftrightarrow>
     blk' = blk\<lparr>active := (\<lambda>c. case c of
                Saturation_eqn t \<Rightarrow> (if t \<in> set (blk_time blk) then True else active blk c)
              | _ \<Rightarrow> active blk c)\<rparr> \<and> tr' = tr"
  by (auto simp: saturation_eqn_activate_def)

lemma properties_in_0_unfix_iff:
  "properties_in_0_unfix x (blk, tr) = (Inr u, blk', tr') \<longleftrightarrow>
     0 \<in> set (blk_time blk) \<and> blk' = blk\<lparr>fixed := (fixed blk)(x 0 := False)\<rparr> \<and> tr' = tr"
  by (auto simp: properties_in_0_unfix_def)

lemma unfix_chain:
  assumes "unfix \<in> {''hot_flow'', ''cold_flow'', ''pressure''}"
  shows "(if unfix = ''pressure'' then properties_in_0_unfix (Pressure_in Side_1)
          else if unfix = ''hot_flow'' then properties_in_0_unfix (Flow_mol_in Side_1)
          else if unfix = ''cold_flow'' then properties_in_0_unfix (Flow_mol_in Side_2)
          else return ()) = properties_in_0_unfix (selected unfix)"
  using assms by (auto simp: properties_in_0_unfix_def selected_def fun_eq_iff)

lemma initialize_Inr:
  assumes "initialize ext unfix (blk, tr) = (Inr (), blk', tr')"
  obtains f1 b1 f2 b2 b3 c b4 b5 b6 where
    "unfix \<in> {''hot_flow'', ''cold_flow'', ''pressure''}"
    "cv_initialize ext Side_1 blk = (Inr f1, b1)"
    "cv_initialize ext Side_2 b1 = (Inr f2, b2)"
    "0 \<in> set (blk_time b2)"
    "blk_time b3 = blk_time b2" "val b3 = val b2"
    "fixed b3 = (fixed b2)(selected unfix 0 := False)"
    "solve ext b3 = (Inr c, b4)"
    "release_state ext Side_1 f1 b4 = (Inr (), b5)"
    "release_state ext Side_2 f2 b5 = (Inr (), b6)"
    "blk' = from_json b6 (to_json blk)"
    "tr' = tr @ [Ev_to_json, Ev_cv_initialize Side_1, Ev_cv_initialize Side_2, Ev_solve b3,
       Ev_release_state Side_1, Ev_release_state Side_2, Ev_from_json]"
proof -
  have valid: "unfix \<in> {''hot_flow'', ''cold_flow'', ''pressure''}"
    using assms by (auto simp: initialize_def raise_def split: if_splits)
  from assms valid have
    "bind_a snapshot (\<lambda>istate.
        bind_a (call (Ev_cv_initialize Side_1) (cv_initialize ext Side_1)) (\<lambda>flags1.
        bind_a (call (Ev_cv_initialize Side_2) (cv_initialize ext Side_2)) (\<lambda>flags2.
        bind_a saturation_eqn_activate (\<lambda>_.
        bind_a (properties_in_0_unfix (selected unfix)) (\<lambda>_.
        bind_a (call_solve ext) (\<lambda>res.
        bind_a (call (Ev_release_state Side_1) (release_state ext Side_1 flags1)) (\<lambda>_.
        bind_a (call (Ev_release_state Side_2) (release_state ext Side_2 flags2)) (\<lambda>_.
        restore istate)))))))) (blk, tr) = (Inr (), blk', tr')"
    unfolding initialize_def unfix_chain [OF valid] by (simp split: if_splits)
  then obtain f1 b1 f2 b2 ba b3 c b4 b5 b6 where
    1: "cv_initialize ext Side_1 blk = (Inr f1, b1)"
    and 2: "cv_initialize ext Side_2 b1 = (Inr f2, b2)"
    and 3: "ba = b2\<lparr>active := (\<lambda>c. case c of
                Saturation_eqn t \<Rightarrow> (if t \<in> set (blk_time b2) then True else active b2 c)
              | _ \<Rightarrow> active b2 c)\<rparr>"
    and 4: "0 \<in> set (blk_time ba)" "b3 = ba\<lparr>fixed := (fixed ba)(selected unfix 0 := False)\<rparr>"
    and 5: "solve ext b3 = (Inr c, b4)"
    and 6: "release_state ext Side_1 f1 b4 = (Inr (), b5)"
    and 7: "release_state ext Side_2 f2 b5 = (Inr (), b6)"
    and 8: "blk' = from_json b6 (to_json blk)"
    and 9: "tr' = tr @ [Ev_to_json, Ev_cv_initialize Side_1, Ev_cv_initialize Side_2,
       Ev_solve b3, Ev_release_state Side_1, Ev_release_state Side_2, Ev_from_json]"
    by (auto simp: bind_a_Inr_iff call_Inr_iff call_solve_Inr_iff snapshot_iff restore_iff
        saturation_eqn_activate_iff properties_in_0_unfix_iff)
  show thesis
    by (rule that [OF valid 1 2 _ _ _ _ 5 6 7 8 9]) (use 4(1) in \<open>simp_all add: 3 4(2)\<close>)
qed

text \<open>
  Claim C2. When \<open>initialize\<close>, called with a valid \<open>unfix\<close>, returns, every variable is
  fixed or free as it was before the call and every constraint is active or inactive as
  it was before the call, whatever the control volume initialisations and the solver did
  to the block and whatever termination condition the solver reported.
\<close>

theorem initialize_restores:
  assumes "unfix \<in> {''hot_flow'', ''cold_flow'', ''pressure''}"
    and "initialize ext unfix (blk, tr) = (Inr (), blk', tr')"
  shows "fixed blk' = fixed blk \<and> active blk' = active blk"
  using assms(2) by (rule initialize_Inr) (simp add: from_json_def to_json_def)


theorem initialize_restores_witness:
  "''hot_flow'' \<in> {''hot_flow'', ''cold_flow'', ''pressure''} \<and>
   fst (solve example_ext example_blk) = Inr MaxIterations \<and>
   fst (initialize example_ext ''hot_flow'' (example_blk, [])) = Inr () \<and>
   fixed (fst (snd (initialize example_ext ''hot_flow'' (example_blk, [])))) = fixed example_blk \<and>
   active (fst (snd (initialize example_ext ''hot_flow'' (example_blk, [])))) = active example_blk"
proof -
  let ?r = "initialize example_ext ''hot_flow'' (example_blk, [])"
  have ok: "fst ?r = Inr ()"
    by (simp add: initialize_def action_defs example_ext_def example_blk_def)
  then have eq: "?r = (Inr (), fst (snd ?r), snd (snd ?r))"
    by (metis prod.collapse)
  have v: "''hot_flow'' \<in> {''hot_flow'', ''cold_flow'', ''pressure''}" by simp
  have "fst (solve example_ext example_blk) = Inr MaxIterations"
    by (simp add: example_ext_def)
  with initialize_restores [OF v eq] ok v show ?thesis by simp
qed

lemma initialize_solve_event:
  assumes "initialize ext unfix (blk, []) = (r, blk', tr')" "Ev_solve sb \<in> set tr'"
  shows "\<exists>f1 b1 f2 b2. unfix \<in> {''hot_flow'', ''cold_flow'', ''pressure''} \<and>
     cv_initialize ext Side_1 blk = (Inr f1, b1) \<and>
     cv_initialize ext Side_2 b1 = (Inr f2, b2) \<and>
     0 \<in> set (blk_time b2) \<and>
     fixed sb = (fixed b2)(selected unfix 0 := False)"
proof -
  have valid: "unfix \<in> {''hot_flow'', ''cold_flow'', ''pressure''}"
    using assms by (auto simp: initialize_def raise_def split: if_splits)
  show ?thesis
    using assms valid
    unfolding initialize_def unfix_chain [OF valid]
    by (auto simp: action_defs split: if_splits prod.splits sum.splits)
qed

lemma initialize_Inr_trace:
  assumes "initialize ext unfix (blk, tr) = (Inr (), blk', tr')"
  shows "\<exists>sb. Ev_solve sb \<in> set tr'"
  using assms by (rule initialize_Inr) auto

text \<open>
  Claim C10. The state that \<open>initialize\<close> hands to the solver differs, in what is fixed,
  from the state the control volume initialisations left only in the selected variable
  at the time index \<open>0\<close>, which is free: the selected variable at every other time point,
  and every other variable, is fixed or free as it was.
\<close>

theorem initialize_unfixes_index_0_only:
  assumes "cv_initialize ext Side_1 blk = (r1, b1)"
    and "cv_initialize ext Side_2 b1 = (r2, b2)"
    and "initialize ext unfix (blk, []) = (r, blk', tr')"
    and "Ev_solve sb \<in> set tr'"
  shows "\<not> fixed sb (selected unfix 0) \<and>
    (\<forall>t. t \<noteq> 0 \<longrightarrow> fixed sb (selected unfix t) = fixed b2 (selected unfix t)) \<and>
    (\<forall>v. v \<noteq> selected unfix 0 \<longrightarrow> fixed sb v = fixed b2 v)"
proof -
  from initialize_solve_event [OF assms(3,4)] assms(1,2)
  have fx: "fixed sb = (fixed b2)(selected unfix 0 := False)" by auto
  have "selected unfix t \<noteq> selected unfix 0" if "t \<noteq> 0" for t
    using that by (simp add: selected_def)
  with fx show ?thesis by simp
qed

theorem initialize_unfixes_index_0_only_witness:
  "\<exists>sb. Ev_solve sb \<in> set (snd (snd (initialize example_ext ''hot_flow'' (example_blk, [])))) \<and>
     \<not> fixed sb (selected ''hot_flow'' 0) \<and>
     fixed sb (selected ''hot_flow'' 1) \<and>
     fixed (snd (cv_initialize example_ext Side_2
              (snd (cv_initialize example_ext Side_1 example_blk)))) (selected ''hot_flow'' 1)"
proof -
  let ?r = "initialize example_ext ''hot_flow'' (example_blk, [])"
  let ?c1 = "cv_initialize example_ext Side_1 example_blk"
  let ?c2 = "cv_initialize example_ext Side_2 (snd ?c1)"
  have ok: "fst ?r = Inr ()"
    by (simp add: initialize_def action_defs example_ext_def example_blk_def)
  then have 3: "?r = (Inr (), fst (snd ?r), snd (snd ?r))"
    by (metis prod.collapse)
  from initialize_Inr_trace [OF 3]
  obtain sb where sb: "Ev_solve sb \<in> set (snd (snd ?r))" ..
  have 1: "?c1 = (fst ?c1, snd ?c1)" and 2: "?c2 = (fst ?c2, snd ?c2)"
    by simp_all
  have b2: "fixed (snd ?c2) (selected ''hot_flow'' 1)"
    by (simp add: example_ext_def)
  have one: "(1::real) \<noteq> 0" by simp
  note th = initialize_unfixes_index_0_only [OF 1 2 3 sb]
  from th have n0: "\<not> fixed sb (selected ''hot_flow'' 0)" by (rule conjunct1)
  from th have al: "\<forall>t. t \<noteq> 0 \<longrightarrow>
      fixed sb (selected ''hot_flow'' t) = fixed (snd ?c2) (selected ''hot_flow'' t)"
    by (rule conjunct1 [OF conjunct2])
  have e1: "fixed sb (selected ''hot_flow'' 1) = fixed (snd ?c2) (selected ''hot_flow'' 1)"
    by (rule mp [OF spec [OF al] one])
  have f1: "fixed sb (selected ''hot_flow'' 1)"
    by (rule iffD2 [OF e1 b2])
  show ?thesis
    by (rule exI [of _ sb]) (rule conjI [OF sb conjI [OF n0 conjI [OF f1 b2]]])
qed

end
